theory Spec2Isabelle
  imports Complex_Main
begin

section \<open>JavaScript strings and the string primitives the agents use\<close>

text \<open>
  A JavaScript string is a sequence of UTF-16 code units. A code unit is modelled by
  its number (a \<open>nat\<close> below 65536), so that the non-ASCII letters of the Spanish
  literals and the Unicode white space of \<open>\s\<close> are the units the engine sees.
  \<open>asc\<close> writes an ASCII literal as such a string.
\<close>

type_synonym jsstring = "nat list"

definition asc :: "string \<Rightarrow> jsstring" where
  "asc s = map of_char s"

text \<open>
  \<open>\s\<close> in a regular expression and \<open>String.prototype.trim\<close> use the same set:
  WhiteSpace and LineTerminator of ECMAScript.
\<close>

definition isSpace :: "nat \<Rightarrow> bool" where
  "isSpace c \<longleftrightarrow>
     (9 \<le> c \<and> c \<le> 13) \<or> c = 32 \<or> c = 160 \<or> c = 5760 \<or> (8192 \<le> c \<and> c \<le> 8202) \<or>
     c = 8232 \<or> c = 8233 \<or> c = 8239 \<or> c = 8287 \<or> c = 12288 \<or> c = 65279"

text \<open>\<open>\w\<close> without the unicode flag: \<open>[A-Za-z0-9_]\<close>, also under the \<open>i\<close> flag.\<close>

definition isWordChar :: "nat \<Rightarrow> bool" where
  "isWordChar c \<longleftrightarrow>
     (48 \<le> c \<and> c \<le> 57) \<or> (65 \<le> c \<and> c \<le> 90) \<or> c = 95 \<or> (97 \<le> c \<and> c \<le> 122)"

text \<open>The character class \<open>[.!?]\<close>.\<close>

definition isTerminator :: "nat \<Rightarrow> bool" where
  "isTerminator c \<longleftrightarrow> c = 46 \<or> c = 33 \<or> c = 63"

text \<open>
  \<open>s.split(/C+/)\<close> for a character class \<open>C\<close>: the pieces between the maximal
  runs of \<open>C\<close>. A run at the start or at the end of \<open>s\<close> leaves an empty piece
  there, and the empty string gives the one piece \<open>""\<close>. \<open>cur\<close> is the piece being
  read (reversed), \<open>insep\<close> says that the previous unit belonged to a separator run.
\<close>

fun split_go :: "(nat \<Rightarrow> bool) \<Rightarrow> bool \<Rightarrow> jsstring \<Rightarrow> jsstring \<Rightarrow> jsstring list" where
  "split_go C insep cur [] = [rev cur]"
| "split_go C insep cur (c # cs) =
     (if C c then (if insep then split_go C True cur cs
                   else rev cur # split_go C True [] cs)
      else split_go C False (c # cur) cs)"

definition split_runs :: "(nat \<Rightarrow> bool) \<Rightarrow> jsstring \<Rightarrow> jsstring list" where
  "split_runs C s = split_go C False [] s"

definition trim :: "jsstring \<Rightarrow> jsstring" where
  "trim s = rev (dropWhile isSpace (rev (dropWhile isSpace s)))"

text \<open>\<open>s.includes(t)\<close>.\<close>

fun includesStr :: "jsstring \<Rightarrow> jsstring \<Rightarrow> bool" where
  "includesStr [] t = (t = [])"
| "includesStr (c # cs) t = (take (length t) (c # cs) = t \<or> includesStr cs t)"

text \<open>\<open>text.split(/[.!?]+/).filter(s => s.trim())\<close>: a string is truthy when not empty.\<close>

definition sentencesOf :: "jsstring \<Rightarrow> jsstring list" where
  "sentencesOf text = filter (\<lambda>s. trim s \<noteq> []) (split_runs isTerminator text)"

text \<open>\<open>s.split(/\s+/).length\<close>.\<close>

definition tokenCount :: "jsstring \<Rightarrow> nat" where
  "tokenCount s = length (split_runs isSpace s)"

text \<open>
  \<open>\b\<close> between the unit before the position (none at the start of the string) and
  the units after it: exactly one of the two sides is a word character.
\<close>

definition isBoundary :: "nat option \<Rightarrow> jsstring \<Rightarrow> bool" where
  "isBoundary prev rest \<longleftrightarrow>
     (case prev of None \<Rightarrow> False | Some p \<Rightarrow> isWordChar p) \<noteq>
     (case rest of [] \<Rightarrow> False | c # _ \<Rightarrow> isWordChar c)"

text \<open>
  Canonicalize of the \<open>i\<close> flag (no unicode flag) maps a unit to its upper case. The
  patterns of this program compare text against ASCII word characters only, and a unit
  of 128 or more never canonicalizes to an ASCII unit, so the model maps \<open>a\<close>-\<open>z\<close> to
  \<open>A\<close>-\<open>Z\<close> and leaves every other unit alone.
\<close>

definition canon :: "nat \<Rightarrow> nat" where
  "canon c = (if 97 \<le> c \<and> c \<le> 122 then c - 32 else c)"

text \<open>The first result of a list of attempts, as a backtracking matcher takes it.\<close>

fun firstSome :: "'a option list \<Rightarrow> 'a option" where
  "firstSome [] = None"
| "firstSome (Some x # _) = Some x"
| "firstSome (None # xs) = firstSome xs"

text \<open>
  \<open>text.match(/\b\w{13,}\b/g) || []\<close>: between two \<open>\b\<close> the greedy \<open>\w{13,}\<close>
  takes a whole maximal run of word characters, so the matches are the runs of 13 units
  or more, from left to right.
\<close>

definition longWordsOf :: "jsstring \<Rightarrow> jsstring list" where
  "longWordsOf text =
     filter (\<lambda>w. 13 \<le> length w) (filter (\<lambda>w. w \<noteq> []) (split_runs (\<lambda>c. \<not> isWordChar c) text))"

text \<open>
  \<open>text.match(/\b(fue|fueron|ha sido|han sido)\b/gi)\<close> is not null: at some position
  there is a \<open>\b\<close>, one of the four forms read without regard to case, and a \<open>\b\<close>.
\<close>

definition passiveForms :: "jsstring list" where
  "passiveForms = [asc ''fue'', asc ''fueron'', asc ''ha sido'', asc ''han sido'']"

definition formAt :: "jsstring \<Rightarrow> jsstring \<Rightarrow> bool" where
  "formAt lit rest \<longleftrightarrow>
     length lit \<le> length rest \<and> map canon (take (length lit) rest) = map canon lit \<and>
     isBoundary (Some (last (take (length lit) rest))) (drop (length lit) rest)"

fun passiveFrom :: "nat option \<Rightarrow> jsstring \<Rightarrow> bool" where
  "passiveFrom prev [] = False"
| "passiveFrom prev (c # cs) =
     ((isBoundary prev (c # cs) \<and> list_ex (\<lambda>lit. formAt lit (c # cs)) passiveForms) \<or>
      passiveFrom (Some c) cs)"

definition hasPassiveVoice :: "jsstring \<Rightarrow> bool" where
  "hasPassiveVoice text = passiveFrom None text"

text \<open>
  \<open>/\b(\w+)\s+\1\b/gi\<close> at one position: \<open>\w+\<close> and \<open>\s+\<close> are greedy, so the
  matcher tries the longest word first and the longest white space first, and backs off
  one unit at a time; the back-reference reads the captured word again without regard
  to case. The result is the matched text.
\<close>

definition repeatAt :: "nat option \<Rightarrow> jsstring \<Rightarrow> jsstring option" where
  "repeatAt prev rest =
     (if \<not> isBoundary prev rest then None
      else firstSome (map (\<lambda>k.
             let w = take k rest; after = drop k rest in
             firstSome (map (\<lambda>m.
               let r = drop m after in
               if k \<le> length r \<and> map canon (take k r) = map canon w \<and>
                  isBoundary (Some (last (take k r))) (drop k r)
               then Some (take (k + m + k) rest) else None)
               (rev [1 ..< Suc (length (takeWhile isSpace after))])))
             (rev [1 ..< Suc (length (takeWhile isWordChar rest))])))"

text \<open>
  \<open>text.match(/\b(\w+)\s+\1\b/gi)\<close>: the matches from left to right, each search
  starting where the previous match ended. A match \<open>m\<close> has at least three units, so
  the text after it is \<open>drop (length m - 1) cs\<close> when the match starts at \<open>c # cs\<close>.
\<close>

fun repeatedPairs :: "nat option \<Rightarrow> jsstring \<Rightarrow> jsstring list" where
  "repeatedPairs prev [] = []"
| "repeatedPairs prev (c # cs) =
     (case repeatAt prev (c # cs) of
        Some m \<Rightarrow> m # repeatedPairs (Some (last m)) (drop (length m - 1) cs)
      | None \<Rightarrow> repeatedPairs (Some c) cs)"

text \<open>\<open>String(n)\<close> for a natural number.\<close>

fun digitsOf :: "nat \<Rightarrow> jsstring" where
  "digitsOf n = (if n < 10 then [48 + n] else digitsOf (n div 10) @ [48 + n mod 10])"

declare digitsOf.simps [simp del]

text \<open>
  A Number is an IEEE 754 double. The numbers of this program are lengths and counts,
  the quotients, sums and differences of a few of them, and decimal literals: they are
  finite and far from overflow, so a double is modelled by the rational number that is
  its value, and every operation rounds its exact result to the nearest double, to the
  even one of two (binary64: 53 significant bits, the smallest exponent \<open>-1022\<close>).
\<close>

text \<open>The number of binary digits of a natural number.\<close>

fun bitLength :: "nat \<Rightarrow> nat" where
  "bitLength n = (if n = 0 then 0 else Suc (bitLength (n div 2)))"

declare bitLength.simps [simp del]

text \<open>The exponent \<open>e\<close> of a positive number \<open>x\<close>: \<open>2^e \<le> x < 2^(e+1)\<close>.\<close>

definition exponentOf :: "rat \<Rightarrow> int" where
  "exponentOf x =
     (if 1 \<le> x then int (bitLength (nat \<lfloor>x\<rfloor>)) - 1
      else - int (bitLength (nat (\<lceil>1 / x\<rceil> - 1))))"

definition twoTo :: "int \<Rightarrow> rat" where
  "twoTo k = (if 0 \<le> k then 2 ^ nat k else 1 / 2 ^ nat (- k))"

text \<open>The nearest integer, the even one of two.\<close>

definition roundEven :: "rat \<Rightarrow> int" where
  "roundEven r =
     (let f = \<lfloor>r\<rfloor>; d = r - of_int f
      in if d < 1 / 2 then f else if 1 / 2 < d then f + 1 else if even f then f else f + 1)"

text \<open>The double nearest to a number: a multiple of the unit in the last place.\<close>

definition double :: "rat \<Rightarrow> rat" where
  "double x =
     (if x = 0 then 0
      else let a = \<bar>x\<bar>;
               e = max (exponentOf a) (- 1022);
               ulp = twoTo (e - 52);
               m = of_int (roundEven (a / ulp)) * ulp
           in if x < 0 then - m else m)"

text \<open>\<open>a + b\<close>, \<open>a - b\<close> and \<open>a / b\<close> on doubles.\<close>

definition plusD :: "rat \<Rightarrow> rat \<Rightarrow> rat" where
  "plusD a b = double (a + b)"

definition minusD :: "rat \<Rightarrow> rat \<Rightarrow> rat" where
  "minusD a b = double (a - b)"

definition divideD :: "rat \<Rightarrow> rat \<Rightarrow> rat" where
  "divideD a b = double (a / b)"

text \<open>
  \<open>x.toFixed(d)\<close>: the integer \<open>n\<close> with \<open>n / 10^d\<close> closest to the exact value of
  \<open>|x|\<close> (the larger one of two), written with \<open>d\<close> decimals and the sign of \<open>x\<close>.
  The argument is read as a double. \<open>fixedValue d x\<close> is \<open>parseFloat(x.toFixed(d))\<close>,
  the double nearest to the number that this text denotes.
\<close>

definition fixedDigits :: "nat \<Rightarrow> rat \<Rightarrow> nat" where
  "fixedDigits d x = nat \<lfloor>\<bar>double x\<bar> * 10 ^ d + 1 / 2\<rfloor>"

definition toFixed :: "nat \<Rightarrow> rat \<Rightarrow> jsstring" where
  "toFixed d x =
     (let n = fixedDigits d x;
          a = digitsOf (n div 10 ^ d);
          b = digitsOf (n mod 10 ^ d);
          m = (if d = 0 then a else a @ [46] @ replicate (d - length b) 48 @ b)
      in if double x < 0 then 45 # m else m)"

definition fixedValue :: "nat \<Rightarrow> rat \<Rightarrow> rat" where
  "fixedValue d x =
     (let v = double (of_nat (fixedDigits d x) / 10 ^ d) in if double x < 0 then - v else v)"

text \<open>\<open>sentences.reduce((sum, s) => sum + s.split(/\s+/).length, 0)\<close>.\<close>

definition totalTokens :: "jsstring list \<Rightarrow> rat" where
  "totalTokens sentences = foldl (\<lambda>sum s. plusD sum (of_nat (tokenCount s))) 0 sentences"

section \<open>Values, objects and errors\<close>

text \<open>
  The findings are object literals whose fields differ from one kind to the next: an
  object is the list of its properties in the order of the literal. A number in an
  object is the value of its double.
\<close>

datatype jsvalue = Str jsstring | Num rat | Strs "jsstring list" | Boolean bool

type_synonym jsobject = "(string \<times> jsvalue) list"

datatype js_error = Error jsstring | TypeError | SyntaxError

text \<open>
  The page metadata of the content script; the agents read \<open>title\<close> and
  \<open>metaDescription\<close> only. A field that is absent is \<open>None\<close>.

  The result of each agent is a record with the fields of the object that the agent
  returns. A local variable of the source that has the name of such a field is written
  with a prime in the definitions below.
\<close>

record metadata =
  title :: "jsstring option"
  metaDescription :: "jsstring option"

record analysis_context =
  apiKey :: "jsstring option"
  isWebPage :: bool
  metadata :: metadata

section \<open>Analyzer agent\<close>

record analyzer_result =
  agent :: jsstring
  classification :: jsstring
  issues :: "jsobject list"
  recommendedAgents :: "jsstring list"
  severity :: jsstring

definition titulo :: jsstring where
  "titulo = asc ''t'' @ [237] @ asc ''tulo''"

definition classifyText :: "jsstring \<Rightarrow> analysis_context \<Rightarrow> jsstring" where
  "classifyText text context =
     (let wordCount = length (split_runs isSpace text) in
      if wordCount < 100 then asc ''short''
      else if isWebPage context then asc ''web''
      else if includesStr text (asc ''meta'') \<or> includesStr text titulo \<or> includesStr text (asc ''SEO'')
           then asc ''web''
      else asc ''document'')"

definition analyzer_detectIssues :: "jsstring \<Rightarrow> jsobject list" where
  "analyzer_detectIssues text =
     (let sentences = sentencesOf text;
          issues' = concat (map (\<lambda>(idx, sentence).
                     let words = tokenCount (trim sentence) in
                     if words > 30
                     then [[(''type'', Str (asc ''sentence_length'')),
                            (''sentence'', Num (of_nat (idx + 1))),
                            (''words'', Num (of_nat words)),
                            (''text'', Str (trim sentence))]]
                     else []) (enumerate 0 sentences));
          longWords = longWordsOf text
      in if length longWords > 0
         then issues' @ [[(''type'', Str (asc ''complex_vocabulary'')),
                         (''count'', Num (of_nat (length longWords))),
                         (''examples'', Strs (take 3 longWords))]]
         else issues')"

definition recommendAgents :: "jsstring \<Rightarrow> jsobject list \<Rightarrow> jsstring list" where
  "recommendAgents classification' issues' =
     (let agents = [asc ''grammar'', asc ''validator''];
          agents = (if length issues' > 2 \<or> classification' = asc ''document''
                    then asc ''style'' # agents else agents)
      in if classification' = asc ''web'' then agents @ [asc ''seo''] else agents)"

definition assessSeverity :: "jsobject list \<Rightarrow> jsstring" where
  "assessSeverity issues' =
     (if length issues' \<ge> 3 then asc ''high''
      else if length issues' \<ge> 2 then asc ''medium''
      else asc ''low'')"

definition analyzer_analyze :: "jsstring \<Rightarrow> analysis_context \<Rightarrow> analyzer_result" where
  "analyzer_analyze text context =
     (let classification' = classifyText text context;
          issues' = analyzer_detectIssues text;
          recommendedAgents' = recommendAgents classification' issues';
          severity' = assessSeverity issues'
      in \<lparr>agent = asc ''Analyzer'', classification = classification', issues = issues',
          recommendedAgents = recommendedAgents', severity = severity'\<rparr>)"

section \<open>Rewriter agent\<close>

text \<open>
  The completion service is outside the program. One run sends one request, whose
  parts that vary are the key and the prompt, so the service is a function of these two.
  Its answer is a network failure (the \<open>fetch\<close> promise rejects with a TypeError), or
  a response with its status, the text of its body (\<open>None\<close> when reading it fails)
  and what the agent finds as \<open>choices[0].message.content\<close>: \<open>Inr s\<close> when the body
  is JSON with the string \<open>s\<close> there, and otherwise \<open>Inl e\<close> with the error that
  the agent raises on such a body (a SyntaxError from \<open>json()\<close>, a TypeError from
  reading \<open>choices[0].message\<close>, or from \<open>split\<close> on a content that is no string).
\<close>

datatype http_response = NetworkFailure | Response nat "jsstring option" "js_error + jsstring"

type_synonym completion_service = "jsstring \<Rightarrow> jsstring \<Rightarrow> http_response"

record rewriter_result =
  agent :: jsstring
  originalText :: jsstring
  rewrittenText :: jsstring
  improvements :: "jsobject list"
  issuesDetected :: "jsstring list"

definition rewriter_detectIssues :: "jsstring \<Rightarrow> jsstring list" where
  "rewriter_detectIssues text =
     (let sentences = sentencesOf text;
          issues' = [];
          issues' = (if list_ex (\<lambda>s. tokenCount (trim s) > 30) sentences
                    then issues' @ [asc ''long_sentences''] else issues');
          issues' = (if hasPassiveVoice text then issues' @ [asc ''passive_voice''] else issues');
          issues' = (if longWordsOf text \<noteq> [] then issues' @ [asc ''complex_vocabulary''] else issues')
      in issues')"

definition buildRewritePrompt :: "jsstring \<Rightarrow> jsstring list \<Rightarrow> jsstring" where
  "buildRewritePrompt text issues' =
     (let prompt = asc ''Reescribe el siguiente texto aplicando principios de lenguaje claro.'' @ [10, 10];
          prompt = (if List.member issues' (asc ''long_sentences'')
                    then prompt @ asc ''- Hay oraciones largas (>30 palabras). Div'' @ [237] @ asc ''delas.'' @ [10]
                    else prompt);
          prompt = (if List.member issues' (asc ''passive_voice'')
                    then prompt @ asc ''- Convierte voz pasiva a activa.'' @ [10] else prompt);
          prompt = (if List.member issues' (asc ''complex_vocabulary'')
                    then prompt @ asc ''- Simplifica vocabulario complejo.'' @ [10] else prompt)
      in prompt @ [10] @ asc ''Texto original:'' @ [10] @ text)"

definition identifyImprovements :: "jsstring \<Rightarrow> jsstring \<Rightarrow> jsobject list" where
  "identifyImprovements original rewritten =
     (let improvements' = [];
          origSentences = sentencesOf original;
          rewritSentences = sentencesOf rewritten;
          improvements' =
            (if length rewritSentences > length origSentences
             then improvements' @
                  [[(''type'', Str (asc ''structure'')),
                    (''change'', Str (asc ''Oraciones divididas para mayor claridad'')),
                    (''reason'', Str (asc ''Una idea por oraci'' @ [243] @ asc ''n (m'' @ [225] @
                                      asc ''ximo 30 palabras)''))]]
             else improvements');
          origAvg = divideD (totalTokens origSentences)
                      (of_nat (if length origSentences = 0 then 1 else length origSentences));
          rewAvg = divideD (totalTokens rewritSentences)
                     (of_nat (if length rewritSentences = 0 then 1 else length rewritSentences))
      in if rewAvg < minusD origAvg 3
         then improvements' @
              [[(''type'', Str (asc ''sentence_length'')),
                (''change'', Str (asc ''Reducci'' @ [243] @ asc ''n promedio: '' @ toFixed 1 origAvg @
                                  asc '' '' @ [8594] @ asc '' '' @ toFixed 1 rewAvg @ asc '' palabras'')),
                (''reason'', Str (asc ''Mejor legibilidad con oraciones m'' @ [225] @ asc ''s cortas''))]]
         else improvements')"

definition rewriter_analyze ::
  "completion_service \<Rightarrow> jsstring \<Rightarrow> analysis_context \<Rightarrow> js_error + rewriter_result" where
  "rewriter_analyze fetch text context =
     (case apiKey context of
        None \<Rightarrow> Inl (Error (asc ''API key requerida''))
      | Some key \<Rightarrow>
          (if key = [] then Inl (Error (asc ''API key requerida''))
           else
             (let issues' = rewriter_detectIssues text;
                  prompt = buildRewritePrompt text issues'
              in (case fetch key prompt of
                    NetworkFailure \<Rightarrow> Inl TypeError
                  | Response status body content \<Rightarrow>
                      (if \<not> (200 \<le> status \<and> status \<le> 299)
                       then (let errorBody = (case body of None \<Rightarrow> [] | Some b \<Rightarrow> b)
                             in Inl (Error (asc ''API error: '' @ digitsOf status @ asc '' '' @ errorBody)))
                       else (case content of
                               Inl e \<Rightarrow> Inl e
                             | Inr rewrittenText' \<Rightarrow>
                                 (let improvements' = identifyImprovements text rewrittenText'
                                  in Inr \<lparr>agent = asc ''Rewriter'', originalText = text,
                                          rewrittenText = rewrittenText',
                                          improvements = improvements',
                                          issuesDetected = issues'\<rparr>)))))))"

section \<open>Grammar agent\<close>

record grammar_result =
  agent :: jsstring
  issues :: "jsobject list"
  correctedText :: jsstring

definition findGrammarIssues :: "jsstring \<Rightarrow> jsobject list" where
  "findGrammarIssues text =
     (let issues' = [];
          repeatedWords = repeatedPairs None text
      in if repeatedWords \<noteq> []
         then issues' @ [[(''type'', Str (asc ''grammar'')),
                         (''issue'', Str (asc ''Palabras repetidas'')),
                         (''examples'', Strs (take 3 repeatedWords)),
                         (''recommendation'', Str (asc ''Eliminar repeticiones innecesarias''))]]
         else issues')"

definition grammar_analyze :: "jsstring \<Rightarrow> analysis_context \<Rightarrow> grammar_result" where
  "grammar_analyze text context =
     (let issues' = findGrammarIssues text
      in \<lparr>agent = asc ''Grammar'', issues = issues', correctedText = text\<rparr>)"

section \<open>Style agent\<close>

record style_result =
  agent :: jsstring
  styleIssues :: "jsobject list"
  readabilityScore :: rat

definition findStyleIssues :: "jsstring \<Rightarrow> jsobject list" where
  "findStyleIssues text =
     (let sentences = sentencesOf text;
          issues' = concat (map (\<lambda>(idx, sentence).
                     let words = tokenCount (trim sentence) in
                     if words > 30
                     then [[(''type'', Str (asc ''style'')),
                            (''issue'', Str (asc ''Oraci'' @ [243] @ asc ''n demasiado larga'')),
                            (''sentence'', Num (of_nat (idx + 1))),
                            (''words'', Num (of_nat words)),
                            (''recommendation'', Str (asc ''Dividir en oraciones m'' @ [225] @ asc ''s cortas''))]]
                     else []) (enumerate 0 sentences))
      in if hasPassiveVoice text
         then issues' @ [[(''type'', Str (asc ''style'')),
                          (''issue'', Str (asc ''Posible voz pasiva'')),
                          (''recommendation'', Str (asc ''Usar voz activa para mayor claridad''))]]
         else issues')"

definition calculateReadability :: "jsstring \<Rightarrow> rat" where
  "calculateReadability text =
     (let sentences = sentencesOf text in
      if length sentences = 0 then 0
      else
        let avgLength = divideD (totalTokens sentences) (of_nat (length sentences));
            score = max 0 (min 1 (minusD 1 (divideD \<bar>minusD avgLength 15\<bar> 30)))
        in fixedValue 2 score)"

definition style_analyze :: "jsstring \<Rightarrow> analysis_context \<Rightarrow> style_result" where
  "style_analyze text context =
     (let issues' = findStyleIssues text;
          readability = calculateReadability text
      in \<lparr>agent = asc ''Style'', styleIssues = issues', readabilityScore = readability\<rparr>)"

section \<open>SEO agent\<close>

record clarity_balance =
  seoScore :: rat
  clarityScore :: rat
  balanceScore :: rat

record seo_result =
  agent :: jsstring
  seoRecommendations :: "jsobject list"
  clarityBalance :: clarity_balance

text \<open>
  \<open>wordFreq\<close> is an object literal \<open>{}\<close> used as a table, so it inherits the
  properties of \<open>Object.prototype\<close>. For a word that names one of them,
  \<open>wordFreq[w] || 0\<close> is the inherited function or object, and adding 1 gives a
  string: the entry of such a word is text for which \<open>freq > 3\<close> is false. The
  assignment makes that text an own property, except for \<open>__proto__\<close>, whose setter
  ignores a string.
\<close>

datatype freq = Count nat | NotANumber

definition prototypeKeys :: "jsstring list" where
  "prototypeKeys =
     [asc ''constructor'', asc ''__defineGetter__'', asc ''__defineSetter__'', asc ''hasOwnProperty'',
      asc ''__lookupGetter__'', asc ''__lookupSetter__'', asc ''isPrototypeOf'',
      asc ''propertyIsEnumerable'', asc ''toString'', asc ''valueOf'', asc ''__proto__'',
      asc ''toLocaleString'']"

text \<open>An assignment to a property keeps its place if it exists and adds it at the end if not.\<close>

fun setProp :: "(jsstring \<times> freq) list \<Rightarrow> jsstring \<Rightarrow> freq \<Rightarrow> (jsstring \<times> freq) list" where
  "setProp [] w v = [(w, v)]"
| "setProp ((k, u) # ps) w v = (if k = w then (k, v) # ps else (k, u) # setProp ps w v)"

text \<open>\<open>wordFreq[w] = (wordFreq[w] || 0) + 1\<close>.\<close>

definition countWord :: "(jsstring \<times> freq) list \<Rightarrow> jsstring \<Rightarrow> (jsstring \<times> freq) list" where
  "countWord wordFreq w =
     (case map_of wordFreq w of
        Some (Count n) \<Rightarrow> setProp wordFreq w (Count (n + 1))
      | Some NotANumber \<Rightarrow> setProp wordFreq w NotANumber
      | None \<Rightarrow>
          if w = asc ''__proto__'' then wordFreq
          else if List.member prototypeKeys w then setProp wordFreq w NotANumber
          else setProp wordFreq w (Count 1))"

text \<open>
  \<open>Object.entries\<close> lists the own properties whose key is an array index (the decimal
  text of an integer below \<open>2^32 - 1\<close>) first, in ascending order, and the other keys
  after them in the order of their creation.
\<close>

definition indexValue :: "jsstring \<Rightarrow> nat" where
  "indexValue w = foldl (\<lambda>a d. 10 * a + (d - 48)) 0 w"

definition isArrayIndex :: "jsstring \<Rightarrow> bool" where
  "isArrayIndex w \<longleftrightarrow>
     w \<noteq> [] \<and> list_all (\<lambda>d. 48 \<le> d \<and> d \<le> 57) w \<and> (w = [48] \<or> hd w \<noteq> 48) \<and>
     indexValue w < 4294967295"

definition entriesOf :: "(jsstring \<times> freq) list \<Rightarrow> (jsstring \<times> freq) list" where
  "entriesOf props =
     sort_key (\<lambda>(k, _). indexValue k) (filter (\<lambda>(k, _). isArrayIndex k) props) @
     filter (\<lambda>(k, _). \<not> isArrayIndex k) props"

text \<open>\<open>words.join(', ')\<close>.\<close>

fun joinComma :: "jsstring list \<Rightarrow> jsstring" where
  "joinComma [] = []"
| "joinComma [w] = w"
| "joinComma (w # ws) = w @ asc '', '' @ joinComma ws"

text \<open>
  \<open>String.prototype.toLowerCase\<close> follows the Unicode tables of the engine; it is a
  parameter of the agent.
\<close>

definition analyzeSEOElements ::
  "(jsstring \<Rightarrow> jsstring) \<Rightarrow> jsstring \<Rightarrow> analysis_context \<Rightarrow> jsobject list" where
  "analyzeSEOElements toLowerCase text context =
     (let recommendations = [];
          metadata' = metadata context;
          recommendations =
            (case title metadata' of
               None \<Rightarrow> recommendations
             | Some t \<Rightarrow>
                 if t \<noteq> [] \<and> length t > 60
                 then recommendations @
                      [[(''type'', Str (asc ''seo'')),
                        (''element'', Str (asc ''title'')),
                        (''recommendation'',
                           Str (asc ''T'' @ [237] @ asc ''tulo demasiado largo ('' @ digitsOf (length t) @
                                asc '' caracteres). M'' @ [225] @ asc ''ximo recomendado: 60.'')),
                        (''reason'',
                           Str (asc ''Los t'' @ [237] @ asc ''tulos largos se cortan en resultados de b'' @
                                [250] @ asc ''squeda''))]]
                 else recommendations);
          recommendations =
            (case metaDescription metadata' of
               None \<Rightarrow>
                 recommendations @
                 [[(''type'', Str (asc ''seo'')),
                   (''element'', Str (asc ''meta_description'')),
                   (''recommendation'', Str (asc ''Falta la meta descripci'' @ [243] @ asc ''n'')),
                   (''reason'',
                      Str (asc ''La meta descripci'' @ [243] @ asc ''n mejora la visibilidad en buscadores''))]]
             | Some d \<Rightarrow>
                 if d = []
                 then recommendations @
                      [[(''type'', Str (asc ''seo'')),
                        (''element'', Str (asc ''meta_description'')),
                        (''recommendation'', Str (asc ''Falta la meta descripci'' @ [243] @ asc ''n'')),
                        (''reason'',
                           Str (asc ''La meta descripci'' @ [243] @
                                asc ''n mejora la visibilidad en buscadores''))]]
                 else if length d > 160
                 then recommendations @
                      [[(''type'', Str (asc ''seo'')),
                        (''element'', Str (asc ''meta_description'')),
                        (''recommendation'',
                           Str (asc ''Meta descripci'' @ [243] @ asc ''n demasiado larga ('' @
                                digitsOf (length d) @ asc '' caracteres). M'' @ [225] @ asc ''ximo: 160.'')),
                        (''reason'', Str (asc ''Las descripciones largas se truncan en resultados''))]]
                 else recommendations);
          words = filter (\<lambda>w. length w > 4) (split_runs isSpace (toLowerCase text));
          wordFreq = foldl countWord [] words;
          repeatedWords =
            map fst (filter (\<lambda>(_, f). case f of Count n \<Rightarrow> n > 3 | NotANumber \<Rightarrow> False)
                            (entriesOf wordFreq))
      in if length repeatedWords > 0
         then recommendations @
              [[(''type'', Str (asc ''seo'')),
                (''element'', Str (asc ''keywords'')),
                (''recommendation'',
                   Str (asc ''Palabras clave frecuentes: '' @ joinComma (take 5 repeatedWords))),
                (''reason'', Str (asc ''Equilibrar densidad de palabras clave con variedad''))]]
         else recommendations)"

definition assessClarityBalance :: "jsstring \<Rightarrow> clarity_balance" where
  "assessClarityBalance text =
     (let sentences = sentencesOf text in
      if length sentences = 0 then \<lparr>seoScore = 0, clarityScore = 0, balanceScore = 0\<rparr>
      else
        let avgLength = divideD (totalTokens sentences) (of_nat (length sentences));
            clarityScore' = max 0 (minusD 1 (divideD (minusD avgLength 15) 30))
        in \<lparr>seoScore = double (7 / 10), clarityScore = fixedValue 2 clarityScore',
            balanceScore = double (65 / 100)\<rparr>)"

definition seo_analyze ::
  "(jsstring \<Rightarrow> jsstring) \<Rightarrow> jsstring \<Rightarrow> analysis_context \<Rightarrow> seo_result" where
  "seo_analyze toLowerCase text context =
     (let recommendations = analyzeSEOElements toLowerCase text context;
          balance = assessClarityBalance text
      in \<lparr>agent = asc ''SEO'', seoRecommendations = recommendations, clarityBalance = balance\<rparr>)"

section \<open>Validator agent\<close>

record validator_result =
  agent :: jsstring
  validation :: "jsobject list"
  qualityScore :: rat
  compliance :: "jsobject list"

definition oracion :: jsstring where
  "oracion = asc ''Oraci'' @ [243] @ asc ''n ''"

definition validateImprovements :: "jsstring \<Rightarrow> jsobject list" where
  "validateImprovements text =
     (let sentences = sentencesOf text
      in concat (map (\<lambda>(idx, sentence).
           let words = tokenCount (trim sentence) in
           if words > 30
           then [[(''status'', Str (asc ''warning'')),
                  (''message'', Str (oracion @ digitsOf (idx + 1) @ asc '' excede 30 palabras ('' @
                                     digitsOf words @ asc '')'')),
                  (''recommendation'', Str (asc ''Considerar dividir la oraci'' @ [243] @ asc ''n''))]]
           else if words \<ge> 15 \<and> words \<le> 25
           then [[(''status'', Str (asc ''success'')),
                  (''message'', Str (oracion @ digitsOf (idx + 1) @ asc '' tiene longitud '' @ [243] @
                                     asc ''ptima ('' @ digitsOf words @ asc '' palabras)''))]]
           else []) (enumerate 0 sentences)))"

definition calculateQualityScore :: "jsstring \<Rightarrow> rat" where
  "calculateQualityScore text =
     (let sentences = sentencesOf text in
      if length sentences = 0 then 0
      else
        let score = foldl (\<lambda>score sentence.
                      let words = tokenCount (trim sentence) in
                      if words \<ge> 10 \<and> words \<le> 30
                      then plusD score (if words \<ge> 15 \<and> words \<le> 25 then 1 else double (7 / 10))
                      else plusD score (double (3 / 10))) 0 sentences
        in fixedValue 2 (divideD score (of_nat (length sentences))))"

definition checkCompliance :: "jsstring \<Rightarrow> jsobject list" where
  "checkCompliance text =
     (let checks = [[(''criterion'', Str (asc ''Oraciones completas'')),
                     (''passed'', Boolean (length (sentencesOf text) > 0))]];
          sentences = sentencesOf text;
          avgLength = (if length sentences > 0
                       then divideD (totalTokens sentences) (of_nat (length sentences))
                       else (0 :: rat));
          checks = checks @ [[(''criterion'', Str (asc ''Longitud promedio adecuada'')),
                              (''passed'', Boolean (avgLength \<le> 30))]];
          checks = checks @ [[(''criterion'', Str (asc ''Puntuaci'' @ [243] @ asc ''n apropiada'')),
                              (''passed'', Boolean (includesStr text (asc ''.'') \<or>
                                                    includesStr text (asc ''!'') \<or>
                                                    includesStr text (asc ''?'')))]];
          checks = checks @ [[(''criterion'', Str (asc ''Contenido no vac'' @ [237] @ asc ''o'')),
                              (''passed'', Boolean (length (trim text) > 0))]]
      in checks)"

definition validator_analyze :: "jsstring \<Rightarrow> analysis_context \<Rightarrow> validator_result" where
  "validator_analyze text context =
     (let validation' = validateImprovements text;
          qualityScore' = calculateQualityScore text;
          compliance' = checkCompliance text
      in \<lparr>agent = asc ''Validator'', validation = validation', qualityScore = qualityScore',
          compliance = compliance'\<rparr>)"

section \<open>Agent coordinator\<close>

text \<open>
  \<open>onProgress\<close> is a function of the caller. It may keep state of its own (the popup
  moves a progress bar), of type \<open>'c\<close>, and it may throw: the callback returns the
  exception, if any, and its new state. A run carries the list of the invocations made
  so far, each with the exception it raised, beside the state of the callback.
\<close>

type_synonym 'c callback = "jsstring \<Rightarrow> jsstring \<Rightarrow> 'c \<Rightarrow> js_error option \<times> 'c"

type_synonym 'c trace = "(jsstring \<times> jsstring \<times> js_error option) list \<times> 'c"

record 'c options =
  apiKey :: "jsstring option"
  metadata :: "metadata option"
  onProgress :: "'c callback option"

record report =
  originalText :: jsstring
  analysis :: "analyzer_result option"
  rewriting :: "rewriter_result option"
  grammar :: "grammar_result option"
  style :: "style_result option"
  seo :: "seo_result option"
  validation :: "validator_result option"
  finalText :: jsstring
  improvements :: "jsobject list"

text \<open>A statement that may throw, followed by the rest of the function.\<close>

definition andThen ::
  "('s \<Rightarrow> (js_error + 'a) \<times> 's) \<Rightarrow> ('a \<Rightarrow> 's \<Rightarrow> (js_error + 'b) \<times> 's) \<Rightarrow>
   's \<Rightarrow> (js_error + 'b) \<times> 's" where
  "andThen m f s = (case m s of (Inl e, s') \<Rightarrow> (Inl e, s') | (Inr a, s') \<Rightarrow> f a s')"

text \<open>\<open>await\<close> of a promise that is settled: its value, or its rejection thrown.\<close>

definition await :: "js_error + 'a \<Rightarrow> 's \<Rightarrow> (js_error + 'a) \<times> 's" where
  "await r s = (r, s)"

text \<open>\<open>onProgress(stage, status)\<close>: nothing catches what the callback throws.\<close>

definition invoke :: "'c callback \<Rightarrow> jsstring \<Rightarrow> jsstring \<Rightarrow> 'c trace \<Rightarrow> (js_error + unit) \<times> 'c trace" where
  "invoke f stage status s =
     (case s of (calls, c) \<Rightarrow>
        (case f stage status c of
           (Some e, c') \<Rightarrow> (Inl e, (calls @ [(stage, status, Some e)], c'))
         | (None, c') \<Rightarrow> (Inr (), (calls @ [(stage, status, None)], c'))))"

text \<open>
  The context that \<open>processText\<close> builds from its options; \<open>options.metadata || {}\<close>
  is an object without fields when there is no metadata.
\<close>

definition contextOf :: "'c options \<Rightarrow> analysis_context" where
  "contextOf options =
     \<lparr>analysis_context.apiKey = options.apiKey options, isWebPage = True,
      analysis_context.metadata = (case options.metadata options of
                    None \<Rightarrow> \<lparr>title = None, metaDescription = None\<rparr>
                  | Some m \<Rightarrow> m)\<rparr>"

text \<open>
  \<open>processText\<close>. The five agents that only read the text return for every string;
  the rewriter may throw. \<open>results.rewriting.improvements\<close> is an array, which is
  truthy also when empty, so the first \<open>push\<close> always runs; \<open>rewrittenText || text\<close>
  takes \<open>text\<close> when the rewritten text is the empty string.
\<close>

definition processText ::
  "(jsstring \<Rightarrow> jsstring) \<Rightarrow> completion_service \<Rightarrow> jsstring \<Rightarrow> 'c options \<Rightarrow>
   'c trace \<Rightarrow> (js_error + report) \<times> 'c trace" where
  "processText toLowerCase fetch text options =
     (let results = \<lparr>originalText = text, analysis = None, rewriting = None, grammar = None,
                     style = None, seo = None, validation = None, finalText = text,
                     improvements = []\<rparr>;
          context = contextOf options;
          onProgress' = (case onProgress options of None \<Rightarrow> (\<lambda>_ _ c. (None, c)) | Some f \<Rightarrow> f)
      in
      andThen (invoke onProgress' (asc ''analyzer'') (asc ''Analizando texto...'')) (\<lambda>_.
      andThen (await (Inr (analyzer_analyze text context))) (\<lambda>a.
      let results = results\<lparr>analysis := Some a\<rparr> in
      andThen (invoke onProgress' (asc ''rewriter'') (asc ''Reescribiendo con IA...'')) (\<lambda>_.
      andThen (await (rewriter_analyze fetch text context)) (\<lambda>rw.
      let results = results\<lparr>rewriting := Some rw\<rparr>;
          currentText = (if rewrittenText rw \<noteq> [] then rewrittenText rw else text);
          results = results\<lparr>improvements :=
                      report.improvements results @ rewriter_result.improvements rw\<rparr> in
      andThen (invoke onProgress' (asc ''grammar'') (asc ''Revisando gram'' @ [225] @ asc ''tica...'')) (\<lambda>_.
      andThen (await (Inr (grammar_analyze currentText context))) (\<lambda>g.
      let results = results\<lparr>grammar := Some g\<rparr>;
          results = (if length (grammar_result.issues g) > 0
                     then results\<lparr>improvements :=
                            report.improvements results @ grammar_result.issues g\<rparr>
                     else results) in
      andThen (invoke onProgress' (asc ''style'') (asc ''Analizando estilo...'')) (\<lambda>_.
      andThen (await (Inr (style_analyze currentText context))) (\<lambda>st.
      let results = results\<lparr>style := Some st\<rparr>;
          results = (if length (styleIssues st) > 0
                     then results\<lparr>improvements := report.improvements results @ styleIssues st\<rparr>
                     else results) in
      andThen (invoke onProgress' (asc ''seo'') (asc ''Evaluando SEO...'')) (\<lambda>_.
      andThen (await (Inr (seo_analyze toLowerCase currentText context))) (\<lambda>se.
      let results = results\<lparr>seo := Some se\<rparr>;
          results = results\<lparr>improvements := report.improvements results @ seoRecommendations se\<rparr> in
      andThen (invoke onProgress' (asc ''validator'') (asc ''Validando resultados...'')) (\<lambda>_.
      andThen (await (Inr (validator_analyze currentText context))) (\<lambda>v.
      let results = results\<lparr>validation := Some v\<rparr>;
          results = results\<lparr>finalText := currentText\<rparr> in
      andThen (invoke onProgress' (asc ''done'') (asc ''An'' @ [225] @ asc ''lisis completado'')) (\<lambda>_.
      await (Inr results)))))))))))))))"

section \<open>The caller of the pipeline\<close>

text \<open>
  \<open>processText\<close> has one caller, \<open>startAnalysis\<close> of the popup. Its text is the
  text that the content script extracts, which ends in \<open>.trim()\<close>, cut to the
  character limit: \<open>text.length > charLimit ? text.substring(0, charLimit) + '...' : text\<close>.
  \<open>substring\<close> reads a negative limit as 0.
\<close>

definition truncatedText :: "int \<Rightarrow> jsstring \<Rightarrow> jsstring" where
  "truncatedText charLimit text =
     (if int (length text) > charLimit then take (nat charLimit) text @ asc ''...'' else text)"

section \<open>Notions of the specification\<close>

text \<open>
  The specification's \<open>wordCount\<close>: the text is split on runs of white space and the
  tokens that are not empty are counted.
\<close>

definition wordCount :: "jsstring \<Rightarrow> nat" where
  "wordCount s = length (filter (\<lambda>t. t \<noteq> []) (split_runs isSpace s))"

text \<open>
  The specification's contribution of one sentence to the quality score, by its number
  of words: the doubles 1.0, 0.7 and 0.3. \<open>exactContribution\<close> is the same in exact
  numbers.
\<close>

definition sentenceContribution :: "nat \<Rightarrow> rat" where
  "sentenceContribution words =
     (if 15 \<le> words \<and> words \<le> 25 then 1
      else if 10 \<le> words \<and> words \<le> 30 then double (7 / 10)
      else double (3 / 10))"

definition exactContribution :: "nat \<Rightarrow> rat" where
  "exactContribution words =
     (if 15 \<le> words \<and> words \<le> 25 then 1
      else if 10 \<le> words \<and> words \<le> 30 then 7 / 10
      else 3 / 10)"

text \<open>
  The mean of a list of doubles as a program computes it: the numbers are added from
  left to right and the sum is divided by their number. The mean words per sentence is
  the mean of the word counts of the sentences, and 0 when there is no sentence.
\<close>

definition meanD :: "rat list \<Rightarrow> rat" where
  "meanD xs = divideD (foldl plusD 0 xs) (of_nat (length xs))"



text \<open>
  The text that the coordinator hands to the agents after the Rewriter:
  \<open>rewrittenText || text\<close>.
\<close>

definition currentTextOf :: "rewriter_result \<Rightarrow> jsstring \<Rightarrow> jsstring" where
  "currentTextOf rw text = (if rewrittenText rw = [] then text else rewrittenText rw)"

text \<open>The stage names of the specification, in the order of the pipeline.\<close>

definition stageNames :: "jsstring list" where
  "stageNames = [asc ''analyzer'', asc ''rewriter'', asc ''grammar'', asc ''style'', asc ''seo'',
                 asc ''validator'', asc ''done'']"

text \<open>
  The function that \<open>processText\<close> calls as \<open>onProgress\<close>: the callback of the
  options, or the function that does nothing. \<open>progressCalls\<close> are the seven calls of
  the source with their arguments, and \<open>replay\<close> makes a list of calls one after the
  other on a state of the callback, up to the first call that throws.
\<close>

definition callbackOf :: "'c options \<Rightarrow> 'c callback" where
  "callbackOf options = (case onProgress options of None \<Rightarrow> (\<lambda>_ _ c. (None, c)) | Some f \<Rightarrow> f)"

definition progressCalls :: "(jsstring \<times> jsstring) list" where
  "progressCalls =
     [(asc ''analyzer'', asc ''Analizando texto...''),
      (asc ''rewriter'', asc ''Reescribiendo con IA...''),
      (asc ''grammar'', asc ''Revisando gram'' @ [225] @ asc ''tica...''),
      (asc ''style'', asc ''Analizando estilo...''),
      (asc ''seo'', asc ''Evaluando SEO...''),
      (asc ''validator'', asc ''Validando resultados...''),
      (asc ''done'', asc ''An'' @ [225] @ asc ''lisis completado'')]"

fun replay :: "'c callback \<Rightarrow> (jsstring \<times> jsstring) list \<Rightarrow> 'c \<Rightarrow> js_error option \<times> 'c" where
  "replay f [] c = (None, c)"
| "replay f ((stage, status) # rest) c =
     (case f stage status c of (Some e, c') \<Rightarrow> (Some e, c') | (None, c') \<Rightarrow> replay f rest c')"

text \<open>
  No invocation in a list of invocations has thrown; and a run \<open>m\<close> follows a run
  \<open>m0\<close> when, started after invocations that have not thrown, it either ends with no
  exception of the callback and the result of \<open>m0\<close>, or its last invocation has thrown
  and that exception is its result.
\<close>

definition quiet :: "(jsstring \<times> jsstring \<times> js_error option) list \<Rightarrow> bool" where
  "quiet calls = list_all (\<lambda>entry. snd (snd entry) = None) calls"

definition follows ::
  "('c trace \<Rightarrow> (js_error + 'a) \<times> 'c trace) \<Rightarrow> ('c trace \<Rightarrow> (js_error + 'a) \<times> 'c trace) \<Rightarrow> bool" where
  "follows m m0 \<longleftrightarrow>
     (\<forall>calls c s0 res calls' c'.
        quiet calls \<longrightarrow> m (calls, c) = (res, (calls', c')) \<longrightarrow>
        (quiet calls' \<and> res = fst (m0 s0)) \<or>
        (\<exists>pre stage status e. calls' = pre @ [(stage, status, Some e)] \<and> quiet pre \<and> res = Inl e))"

section \<open>Example inputs\<close>


definition repeatedText :: jsstring where
  "repeatedText = asc ''Este es un texto. Este es un texto. Tiene palabras repetidas repetidas.''"

text \<open>
  Three sentences of one word and one of fifteen words, in two orders; four sentences of
  21 words in all; three sentences of 14 words in all and three of 5 words in all.
\<close>

definition shortFirst :: jsstring where
  "shortFirst = asc ''a. a. a. b b b b b b b b b b b b b b b.''"

definition longFirst :: jsstring where
  "longFirst = asc ''b b b b b b b b b b b b b b b. a. a. a.''"




text \<open>
  A run of the pipeline: lower case for ASCII letters, a service that answers every
  request with the same completion (or with an empty one), options with a key and no
  callback, and a callback that throws.
\<close>

definition asciiLower :: "jsstring \<Rightarrow> jsstring" where
  "asciiLower s = map (\<lambda>c. if 65 \<le> c \<and> c \<le> 90 then c + 32 else c) s"

definition exampleService :: completion_service where
  "exampleService key prompt = Response 200 None (Inr (asc ''Hola hola. Fue ayer.''))"

definition emptyService :: completion_service where
  "emptyService key prompt = Response 200 None (Inr [])"

definition exampleOptions :: "unit options" where
  "exampleOptions = \<lparr>apiKey = Some (asc ''k''), metadata = None, onProgress = None\<rparr>"

definition throwingCallback :: "unit callback" where
  "throwingCallback stage status c = (Some (Error (asc ''boom'')), c)"

text \<open>A callback that keeps the stage names it has been called with.\<close>

definition loggingCallback :: "jsstring list callback" where
  "loggingCallback stage status seen = (None, seen @ [stage])"

definition loggingOptions :: "jsstring list options" where
  "loggingOptions = \<lparr>apiKey = Some (asc ''k''), metadata = None, onProgress = Some loggingCallback\<rparr>"

section \<open>Evaluation\<close>

text \<open>
  The equations by which the simplifier evaluates the definitions on concrete inputs.
\<close>

lemmas string_eval = asc_def split_runs_def isSpace_def isWordChar_def isTerminator_def trim_def
  sentencesOf_def tokenCount_def

lemmas regex_eval = isBoundary_def canon_def repeatAt_def formAt_def passiveForms_def
  hasPassiveVoice_def longWordsOf_def

lemma floor_rat_numeral [simp]: "\<lfloor>(numeral a :: rat) / numeral b\<rfloor> = numeral a div numeral b"
  using floor_divide_of_int_eq [of "numeral a" "numeral b", where ?'a = rat] by simp

lemma floor_rat_one [simp]: "\<lfloor>(1 :: rat) / numeral b\<rfloor> = 1 div numeral b"
  using floor_divide_of_int_eq [of 1 "numeral b", where ?'a = rat] by simp

lemma ceiling_rat_numeral [simp]:
  "\<lceil>(numeral a :: rat) / numeral b\<rceil> = - (- numeral a div numeral b)"
  using floor_divide_of_int_eq [of "- numeral a" "numeral b", where ?'a = rat]
  by (simp add: ceiling_def)

lemma ceiling_rat_one [simp]: "\<lceil>(1 :: rat) / numeral b\<rceil> = - (- 1 div numeral b)"
  using floor_divide_of_int_eq [of "- 1" "numeral b", where ?'a = rat]
  by (simp add: ceiling_def)

lemma digitsOf_digit: "n < 10 \<Longrightarrow> digitsOf n = [48 + n]"
  by (simp add: digitsOf.simps)

lemma digitsOf_more: "10 \<le> n \<Longrightarrow> digitsOf n = digitsOf (n div 10) @ [48 + n mod 10]"
  by (subst digitsOf.simps) simp

lemma bitLength_0: "bitLength 0 = 0"
  by (simp add: bitLength.simps)

lemma bitLength_pos: "0 < n \<Longrightarrow> bitLength n = Suc (bitLength (n div 2))"
  by (subst bitLength.simps) simp

lemma bitLength_lower: "0 < n \<Longrightarrow> 2 ^ (bitLength n - 1) \<le> n"
proof (induction n rule: bitLength.induct)
  case (1 n)
  show ?case
  proof (cases "n div 2 = 0")
    case True
    then show ?thesis using "1.prems" by (simp add: bitLength_pos bitLength_0)
  next
    case False
    then have pos: "0 < n div 2" by simp
    with "1.IH" "1.prems" have ih: "2 ^ (bitLength (n div 2) - 1) \<le> n div 2" by simp
    have "bitLength (n div 2) = Suc (bitLength (n div 2) - 1)"
      using pos by (simp add: bitLength_pos)
    then have "(2::nat) ^ bitLength (n div 2) = 2 * 2 ^ (bitLength (n div 2) - 1)"
      by (metis power_Suc)
    also have "\<dots> \<le> 2 * (n div 2)" using ih by simp
    also have "\<dots> \<le> n" by simp
    finally show ?thesis using "1.prems" by (simp add: bitLength_pos)
  qed
qed

lemma twoTo_pos: "0 < twoTo k"
  by (simp add: twoTo_def)

lemma twoTo_nonpos: "k \<le> 0 \<Longrightarrow> twoTo k = 1 / 2 ^ nat (- k)"
  by (cases "k = 0") (simp_all add: twoTo_def)

lemma exponentOf_lower:
  assumes "1 \<le> x"
  shows "0 \<le> exponentOf x \<and> twoTo (exponentOf x) \<le> x"
proof -
  let ?n = "nat \<lfloor>x\<rfloor>"
  have n: "0 < ?n" using assms by simp
  then have b: "0 < bitLength ?n" by (simp add: bitLength_pos)
  have e: "exponentOf x = int (bitLength ?n) - 1" using assms by (simp add: exponentOf_def)
  then have nn: "0 \<le> exponentOf x" using b by simp
  have "nat (exponentOf x) = bitLength ?n - 1" using e b by simp
  then have "twoTo (exponentOf x) = 2 ^ (bitLength ?n - 1)" using nn by (simp add: twoTo_def)
  also have "\<dots> = of_nat (2 ^ (bitLength ?n - 1))" by simp
  also have "\<dots> \<le> of_nat ?n" using bitLength_lower [OF n] by (simp only: of_nat_le_iff)
  also have "\<dots> = of_int \<lfloor>x\<rfloor>" using assms by simp
  also have "\<dots> \<le> x" by simp
  finally show ?thesis using nn by simp
qed

lemma exponentOf_small: "x < 1 \<Longrightarrow> exponentOf x \<le> 0"
  by (simp add: exponentOf_def)

lemma roundEven_cases: "roundEven r = \<lfloor>r\<rfloor> \<or> (roundEven r = \<lfloor>r\<rfloor> + 1 \<and> of_int \<lfloor>r\<rfloor> < r)"
  by (auto simp: roundEven_def Let_def)

lemma roundEven_le:
  assumes "r \<le> of_int k"
  shows "roundEven r \<le> k"
proof -
  have f: "\<lfloor>r\<rfloor> \<le> k" using assms by (simp add: floor_le_iff)
  from roundEven_cases [of r] show ?thesis
  proof
    assume "roundEven r = \<lfloor>r\<rfloor>"
    with f show ?thesis by simp
  next
    assume a: "roundEven r = \<lfloor>r\<rfloor> + 1 \<and> of_int \<lfloor>r\<rfloor> < r"
    then have "(of_int \<lfloor>r\<rfloor> :: rat) < of_int k" using assms by simp
    then have "\<lfloor>r\<rfloor> < k" by (simp only: of_int_less_iff)
    with a show ?thesis by simp
  qed
qed

lemma roundEven_nonneg: "0 \<le> r \<Longrightarrow> 0 \<le> roundEven r"
  using roundEven_cases [of r] by auto

lemma double_nonneg:
  assumes "0 \<le> x"
  shows "0 \<le> double x"
proof (cases "x = 0")
  case True
  then show ?thesis by (simp add: double_def)
next
  case False
  define u where "u = twoTo (max (exponentOf x) (- 1022) - 52)"
  have u: "0 < u" by (simp add: u_def twoTo_pos)
  have d: "double x = of_int (roundEven (x / u)) * u"
    using False assms by (simp add: double_def Let_def u_def)
  have "0 \<le> x / u" using assms u by simp
  then have "0 \<le> roundEven (x / u)" by (rule roundEven_nonneg)
  then have "(0::rat) \<le> of_int (roundEven (x / u))" by simp
  then show ?thesis using u unfolding d by (intro mult_nonneg_nonneg) simp_all
qed

lemma double_two53: "double (2 ^ 53) = 2 ^ 53"
  by (simp add: double_def exponentOf_def twoTo_def roundEven_def bitLength_0 bitLength_pos Let_def)

lemma double_le_nat:
  assumes "0 \<le> x" and "x \<le> of_nat N" and "N \<le> 2 ^ 53"
  shows "double x \<le> of_nat N"
proof (cases "x = 0")
  case True
  then show ?thesis by (simp add: double_def)
next
  case False
  with assms(1) have pos: "0 < x" by simp
  define e where "e = max (exponentOf x) (- 1022)"
  have d: "double x = of_int (roundEven (x / twoTo (e - 52))) * twoTo (e - 52)"
    using pos by (simp add: double_def Let_def e_def)
  show ?thesis
  proof (cases "e \<le> 52")
    case True
    define j where "j = nat (52 - e)"
    have u: "twoTo (e - 52) = 1 / 2 ^ j"
      using True twoTo_nonpos [of "e - 52"] by (simp add: j_def)
    have "x / twoTo (e - 52) = x * 2 ^ j" by (simp add: u)
    also have "\<dots> \<le> of_nat N * 2 ^ j" using assms(2) by simp
    also have "\<dots> = of_int (int N * 2 ^ j)" by simp
    finally have "roundEven (x / twoTo (e - 52)) \<le> int N * 2 ^ j" by (rule roundEven_le)
    then have "(of_int (roundEven (x / twoTo (e - 52))) :: rat) \<le> of_int (int N * 2 ^ j)"
      by (simp only: of_int_le_iff)
    then have "of_int (roundEven (x / twoTo (e - 52))) * (1 / 2 ^ j) \<le> (of_int (int N * 2 ^ j) :: rat) * (1 / 2 ^ j)"
      by (rule mult_right_mono) simp
    then show ?thesis by (simp add: d u)
  next
    case False
    then have big: "53 \<le> exponentOf x" by (simp add: e_def)
    then have one: "1 \<le> x" using exponentOf_small [of x] by (cases "1 \<le> x") auto
    have "(2::rat) ^ 53 \<le> 2 ^ nat (exponentOf x)"
      using big by (intro power_increasing) auto
    also have "\<dots> = twoTo (exponentOf x)" using big by (simp add: twoTo_def)
    also have "\<dots> \<le> x" using exponentOf_lower [OF one] by simp
    finally have lo: "2 ^ 53 \<le> x" .
    have "(of_nat N :: rat) \<le> of_nat (2 ^ 53)" using assms(3) by (simp only: of_nat_le_iff)
    then have hi: "(of_nat N :: rat) \<le> 2 ^ 53" by simp
    from lo hi assms(2) have "x = 2 ^ 53" "of_nat N = (2 ^ 53 :: rat)" by auto
    then show ?thesis using double_two53 by simp
  qed
qed

lemma double_unit: "0 \<le> x \<Longrightarrow> x \<le> 1 \<Longrightarrow> 0 \<le> double x \<and> double x \<le> 1"
  using double_nonneg [of x] double_le_nat [of x 1] by simp

lemmas double_eval = double_def exponentOf_def twoTo_def roundEven_def bitLength_0 bitLength_pos
  plusD_def minusD_def divideD_def

lemmas number_eval = fixedDigits_def toFixed_def fixedValue_def digitsOf_digit digitsOf_more

section \<open>The words of a sentence\<close>

text \<open>
  The agents count the words of a sentence on the trimmed sentence. A sentence that the
  agents keep is not blank, and then this count is the number of its words: white space
  at the ends only adds empty pieces, and a text that neither starts nor ends with
  white space has no empty piece.
\<close>

lemma split_go_flag:
  "filter (\<lambda>t. t \<noteq> []) (split_go C b [] s) = filter (\<lambda>t. t \<noteq> []) (split_go C b' [] s)"
  by (cases s) auto

lemma split_go_leading:
  "filter (\<lambda>t. t \<noteq> []) (split_go C b [] (dropWhile C s)) = filter (\<lambda>t. t \<noteq> []) (split_go C b [] s)"
proof (induction s arbitrary: b)
  case Nil
  show ?case by simp
next
  case (Cons c cs)
  show ?case
  proof (cases "C c")
    case True
    have "filter (\<lambda>t. t \<noteq> []) (split_go C b [] (dropWhile C (c # cs))) =
          filter (\<lambda>t. t \<noteq> []) (split_go C True [] (dropWhile C cs))"
      using True split_go_flag [of C b "dropWhile C cs" True] by simp
    also have "\<dots> = filter (\<lambda>t. t \<noteq> []) (split_go C True [] cs)"
      by (rule Cons.IH)
    also have "\<dots> = filter (\<lambda>t. t \<noteq> []) (split_go C b [] (c # cs))"
      using True by simp
    finally show ?thesis .
  next
    case False
    then show ?thesis by simp
  qed
qed

lemma split_go_separators:
  "\<forall>c \<in> set ws. C c \<Longrightarrow>
   filter (\<lambda>t. t \<noteq> []) (split_go C b cur ws) = filter (\<lambda>t. t \<noteq> []) [rev cur]"
  by (induction ws arbitrary: b cur) auto

lemma split_go_trailing:
  "\<forall>c \<in> set ws. C c \<Longrightarrow>
   filter (\<lambda>t. t \<noteq> []) (split_go C b cur (t @ ws)) = filter (\<lambda>t. t \<noteq> []) (split_go C b cur t)"
proof (induction t arbitrary: b cur)
  case Nil
  then show ?case using split_go_separators [of ws C b cur] by simp
next
  case (Cons c t)
  then show ?case by simp
qed

lemma split_go_empty_piece:
  "[] \<in> set (split_go C b cur s) \<Longrightarrow>
   (cur = [] \<and> s = []) \<or> (cur = [] \<and> \<not> b \<and> s \<noteq> [] \<and> C (hd s)) \<or> (s \<noteq> [] \<and> C (last s))"
proof (induction s arbitrary: b cur)
  case Nil
  then show ?case by simp
next
  case (Cons c cs)
  then show ?case by (fastforce split: if_splits)
qed

lemma trim_rest:
  "dropWhile isSpace s = trim s @ rev (takeWhile isSpace (rev (dropWhile isSpace s)))"
proof -
  let ?u = "dropWhile isSpace s"
  have "trim s = rev (dropWhile isSpace (rev ?u))" by (simp add: trim_def)
  then show ?thesis
    using takeWhile_dropWhile_id [of isSpace "rev ?u"] by (metis rev_append rev_rev_ident)
qed

lemma trim_ends:
  assumes "trim s \<noteq> []"
  shows "\<not> isSpace (hd (trim s)) \<and> \<not> isSpace (last (trim s))"
proof -
  let ?u = "dropWhile isSpace s"
  have t: "trim s = rev (dropWhile isSpace (rev ?u))" by (simp add: trim_def)
  have "?u \<noteq> []" using trim_rest [of s] assms by (metis append_is_Nil_conv)
  then have "\<not> isSpace (hd ?u)" by (rule hd_dropWhile)
  moreover have "hd ?u = hd (trim s)" using trim_rest [of s] assms by (metis hd_append2)
  ultimately have h: "\<not> isSpace (hd (trim s))" by simp
  have "dropWhile isSpace (rev ?u) \<noteq> []" using assms t by simp
  then have "\<not> isSpace (hd (dropWhile isSpace (rev ?u)))" by (rule hd_dropWhile)
  then have "\<not> isSpace (last (trim s))" using assms t by (simp add: last_rev)
  with h show ?thesis by simp
qed

lemma dropWhile_hd: "xs \<noteq> [] \<Longrightarrow> \<not> P (hd xs) \<Longrightarrow> dropWhile P xs = xs"
  by (cases xs) simp_all

lemma trim_fixed:
  assumes "s \<noteq> []" and "\<not> isSpace (hd s)" and "\<not> isSpace (last s)"
  shows "trim s = s"
proof -
  have a: "dropWhile isSpace s = s" using assms by (simp add: dropWhile_hd)
  have "rev s \<noteq> []" using assms by simp
  moreover have "\<not> isSpace (hd (rev s))" using assms by (simp add: hd_rev)
  ultimately have "dropWhile isSpace (rev s) = rev s" by (rule dropWhile_hd)
  with a show ?thesis by (simp add: trim_def)
qed

lemma trim_trim: "trim (trim s) = trim s"
proof (cases "trim s = []")
  case True
  have "trim [] = []" by (simp add: trim_def)
  with True show ?thesis by simp
next
  case False
  then show ?thesis using trim_ends [OF False] by (intro trim_fixed) simp_all
qed

lemma no_empty_piece:
  assumes "trim s = s" and "s \<noteq> []"
  shows "filter (\<lambda>t. t \<noteq> []) (split_go isSpace False [] s) = split_go isSpace False [] s"
proof -
  have "trim s \<noteq> []" using assms by simp
  from trim_ends [OF this] have "\<not> isSpace (hd s)" "\<not> isSpace (last s)" using assms by simp_all
  then have "[] \<notin> set (split_go isSpace False [] s)"
    using split_go_empty_piece [of isSpace False "[]" s] assms by auto
  then show ?thesis by (auto simp: filter_id_conv)
qed

lemma tokenCount_fixed:
  assumes "trim s = s" and "s \<noteq> []"
  shows "tokenCount s = wordCount s"
  using no_empty_piece [OF assms] by (simp add: tokenCount_def wordCount_def split_runs_def)

lemma wordCount_trim: "wordCount (trim s) = wordCount s"
proof -
  let ?u = "dropWhile isSpace s"
  let ?ws = "rev (takeWhile isSpace (rev ?u))"
  have ws: "\<forall>c \<in> set ?ws. isSpace c" by (auto dest: set_takeWhileD)
  have "wordCount s = length (filter (\<lambda>t. t \<noteq> []) (split_go isSpace False [] ?u))"
    by (simp add: wordCount_def split_runs_def split_go_leading)
  also have "\<dots> = length (filter (\<lambda>t. t \<noteq> []) (split_go isSpace False [] (trim s @ ?ws)))"
    using trim_rest [of s] by simp
  also have "\<dots> = length (filter (\<lambda>t. t \<noteq> []) (split_go isSpace False [] (trim s)))"
    using split_go_trailing [OF ws] by simp
  finally show ?thesis by (simp add: wordCount_def split_runs_def)
qed

lemma tokenCount_trim:
  assumes "trim s \<noteq> []"
  shows "tokenCount (trim s) = wordCount s"
  using tokenCount_fixed [OF trim_trim assms] wordCount_trim [of s] by simp

lemma sentence_words:
  "map (\<lambda>s. tokenCount (trim s)) (sentencesOf text) = map wordCount (sentencesOf text)"
  by (rule map_cong) (auto simp: sentencesOf_def tokenCount_trim)


lemma split_go_length: "length (split_go C b cur s) \<le> Suc (length s)"
  by (induction s arbitrary: b cur) (auto simp: le_SucI)

lemma sentencesOf_length: "length (sentencesOf text) \<le> Suc (length text)"
proof -
  have "length (sentencesOf text) \<le> length (split_runs isTerminator text)"
    unfolding sentencesOf_def by (rule length_filter_le)
  also have "\<dots> \<le> Suc (length text)" by (simp add: split_runs_def split_go_length)
  finally show ?thesis .
qed




section \<open>Validator: the quality score\<close>

lemma quality_fold:
  "foldl (\<lambda>score sentence.
            if tokenCount (trim sentence) \<ge> 10 \<and> tokenCount (trim sentence) \<le> 30
            then plusD score (if tokenCount (trim sentence) \<ge> 15 \<and> tokenCount (trim sentence) \<le> 25
                              then 1 else double (7 / 10))
            else plusD score (double (3 / 10))) acc sentences =
   foldl plusD acc (map sentenceContribution (map (\<lambda>s. tokenCount (trim s)) sentences))"
  by (induction sentences arbitrary: acc) (auto simp: sentenceContribution_def)

lemma calculateQualityScore_words:
  "calculateQualityScore text =
     (let ws = map wordCount (sentencesOf text) in
      if ws = [] then 0 else fixedValue 2 (meanD (map sentenceContribution ws)))"
proof -
  have "calculateQualityScore text =
      (if sentencesOf text = [] then 0
       else fixedValue 2 (divideD
              (foldl plusD 0 (map sentenceContribution
                 (map (\<lambda>s. tokenCount (trim s)) (sentencesOf text))))
              (of_nat (length (sentencesOf text)))))"
    unfolding calculateQualityScore_def Let_def quality_fold by simp
  then show ?thesis unfolding sentence_words by (simp add: meanD_def Let_def)
qed

lemma contribution_unit: "0 \<le> sentenceContribution w \<and> sentenceContribution w \<le> 1"
  using double_unit [of "7 / 10"] double_unit [of "3 / 10"] by (simp add: sentenceContribution_def)

text \<open>
  Adding up to \<open>2^53\<close> contributions, every partial sum is at most the number of the
  contributions added: rounding a sum never crosses an integer below \<open>2^53\<close>.
\<close>

lemma sum_contribution_bounds:
  "0 \<le> acc \<Longrightarrow> acc \<le> of_nat k \<Longrightarrow> k + length ws \<le> 2 ^ 53 \<Longrightarrow>
   0 \<le> foldl plusD acc (map sentenceContribution ws) \<and>
   foldl plusD acc (map sentenceContribution ws) \<le> of_nat (k + length ws)"
proof (induction ws arbitrary: acc k)
  case Nil
  then show ?case by simp
next
  case (Cons w ws)
  let ?x = "acc + sentenceContribution w"
  have lo: "0 \<le> ?x" using Cons.prems(1) contribution_unit [of w] by simp
  have hi: "?x \<le> of_nat (Suc k)" using Cons.prems(2) contribution_unit [of w] by simp
  have k: "Suc k \<le> 2 ^ 53" using Cons.prems(3) by simp
  have a: "0 \<le> plusD acc (sentenceContribution w)"
    unfolding plusD_def using lo by (rule double_nonneg)
  have b: "plusD acc (sentenceContribution w) \<le> of_nat (Suc k)"
    unfolding plusD_def using lo hi k by (rule double_le_nat)
  have "Suc k + length ws \<le> 2 ^ 53" using Cons.prems(3) by simp
  from Cons.IH [OF a b this] show ?case by simp
qed

lemma meanD_contribution_unit:
  assumes "ws \<noteq> []" and "length ws \<le> 2 ^ 53"
  shows "0 \<le> meanD (map sentenceContribution ws) \<and> meanD (map sentenceContribution ws) \<le> 1"
proof -
  let ?s = "foldl plusD 0 (map sentenceContribution ws)"
  have s: "0 \<le> ?s \<and> ?s \<le> of_nat (length ws)"
    using sum_contribution_bounds [of 0 0 ws] assms(2) by simp
  have pos: "(0::rat) < of_nat (length ws)" using assms(1) by simp
  have "0 \<le> ?s / of_nat (length ws)" using s pos by simp
  moreover have "?s / of_nat (length ws) \<le> 1" using s pos by (simp add: divide_le_eq)
  ultimately show ?thesis
    using double_unit [of "?s / of_nat (length ws)"] by (simp add: meanD_def divideD_def)
qed

lemma fixedValue_nonneg:
  assumes "0 \<le> x"
  shows "0 \<le> fixedValue d x"
proof -
  have "0 \<le> double x" using assms by (rule double_nonneg)
  moreover have "0 \<le> double (of_nat (fixedDigits d x) / 10 ^ d)"
    by (rule double_nonneg) simp
  ultimately show ?thesis by (simp add: fixedValue_def Let_def)
qed

lemma fixedValue_unit:
  assumes "0 \<le> x" and "x \<le> 1"
  shows "0 \<le> fixedValue 2 x \<and> fixedValue 2 x \<le> 1"
proof -
  from double_unit [OF assms] have d: "0 \<le> double x" "double x \<le> 1" by simp_all
  then have "\<bar>double x\<bar> * 10 ^ 2 + 1 / 2 < 101" by simp
  then have "\<lfloor>\<bar>double x\<bar> * 10 ^ 2 + 1 / 2\<rfloor> < 101"
    using floor_less_iff [of "\<bar>double x\<bar> * 10 ^ 2 + 1 / 2" 101] by simp
  then have "nat \<lfloor>\<bar>double x\<bar> * 10 ^ 2 + 1 / 2\<rfloor> \<le> 100" by linarith
  then have "fixedDigits 2 x \<le> 100" unfolding fixedDigits_def .
  then have "(of_nat (fixedDigits 2 x) :: rat) \<le> 100"
    by (metis of_nat_le_iff of_nat_numeral)
  then have "(of_nat (fixedDigits 2 x) :: rat) / 10 ^ 2 \<le> 1" by simp
  moreover have "(0::rat) \<le> of_nat (fixedDigits 2 x) / 10 ^ 2" by simp
  ultimately have "double (of_nat (fixedDigits 2 x) / 10 ^ 2) \<le> 1"
    using double_unit by blast
  then show ?thesis using d fixedValue_nonneg [OF assms(1), of 2] by (simp add: fixedValue_def Let_def)
qed

lemma shortFirst_words: "map wordCount (sentencesOf shortFirst) = [1, 1, 1, 15]"
  by (simp add: shortFirst_def wordCount_def string_eval)

lemma longFirst_words: "map wordCount (sentencesOf longFirst) = [15, 1, 1, 1]"
  by (simp add: longFirst_def wordCount_def string_eval)

lemma shortFirst_score: "calculateQualityScore shortFirst = double (47 / 100)"
  unfolding calculateQualityScore_words shortFirst_words
  by (simp add: sentenceContribution_def meanD_def double_eval number_eval Let_def)

lemma longFirst_score: "calculateQualityScore longFirst = double (48 / 100)"
  unfolding calculateQualityScore_words longFirst_words
  by (simp add: sentenceContribution_def meanD_def double_eval number_eval Let_def)

text \<open>
  Claim C7, as the code has it. The quality score of the Validator is the mean, over the
  sentences, of the contribution of each sentence by its number of words (1 for 15 to 25
  words, 0.7 for 10 to 30 words outside that band, 0.3 otherwise), where the mean is
  computed on doubles, the contributions added in the order of the sentences and the
  sum divided by their number, and the result is rounded by \<open>toFixed(2)\<close>; it is 0 when
  there is no sentence, and it lies between 0 and 1. The length of a JavaScript string
  is below \<open>2^53\<close>.
\<close>

theorem calculateQualityScore_double_mean:
  "length text < 2 ^ 53 \<Longrightarrow>
   calculateQualityScore text =
     (let ws = map wordCount (sentencesOf text) in
      if ws = [] then 0 else fixedValue 2 (meanD (map sentenceContribution ws))) \<and>
   0 \<le> calculateQualityScore text \<and> calculateQualityScore text \<le> 1"
proof -
  assume len: "length text < 2 ^ 53"
  let ?ws = "map wordCount (sentencesOf text)"
  let ?m = "meanD (map sentenceContribution ?ws)"
  have eq: "calculateQualityScore text = (if ?ws = [] then 0 else fixedValue 2 ?m)"
    using calculateQualityScore_words [of "text"] by (simp add: Let_def)
  have "length ?ws \<le> 2 ^ 53" using sentencesOf_length [of "text"] len by simp
  then have "0 \<le> ?m \<and> ?m \<le> 1" if "?ws \<noteq> []"
    using that by (intro meanD_contribution_unit)
  then have "0 \<le> fixedValue 2 ?m \<and> fixedValue 2 ?m \<le> 1" if "?ws \<noteq> []"
    using that fixedValue_unit by blast
  then show ?thesis using eq by (auto simp: Let_def)
qed

text \<open>
  Two sentences of two words each contribute 0.3 each: the score is 0.3.
\<close>

theorem calculateQualityScore_double_mean_witness:
  "length (asc ''Hola mundo. Que tal.'') < 2 ^ 53 \<and>
   map wordCount (sentencesOf (asc ''Hola mundo. Que tal.'')) = [2, 2] \<and>
   calculateQualityScore (asc ''Hola mundo. Que tal.'') = double (3 / 10) \<and>
   0 \<le> calculateQualityScore (asc ''Hola mundo. Que tal.'') \<and>
   calculateQualityScore (asc ''Hola mundo. Que tal.'') \<le> 1"
proof -
  have len: "length (asc ''Hola mundo. Que tal.'') < 2 ^ 53"
    by (simp add: asc_def)
  have ws: "map wordCount (sentencesOf (asc ''Hola mundo. Que tal.'')) = [2, 2]"
    by (simp add: wordCount_def string_eval)
  have m: "fixedValue 2 (meanD (map sentenceContribution [2, 2])) = double (3 / 10)"
    by (simp add: sentenceContribution_def meanD_def double_eval number_eval Let_def)
  show ?thesis
    using calculateQualityScore_double_mean [OF len] len m unfolding ws
    by simp
qed

text \<open>
  The claim as it is written fails: three sentences of one word and one of fifteen words
  have the contributions 0.3, 0.3, 0.3 and 1, whose mean 0.475 rounds to 0.48, to the
  nearest with the tie upwards and with the tie to the even digit alike. The code
  returns 0.47 when the short sentences come first and 0.48 when the long one does: the
  score is not a function of the mean of the contributions.
\<close>

theorem calculateQualityScore_order:
  "map wordCount (sentencesOf shortFirst) = [1, 1, 1, 15] \<and>
   map wordCount (sentencesOf longFirst) = [15, 1, 1, 1] \<and>
   sum_list (map exactContribution [1, 1, 1, 15]) / 4 = 19 / 40 \<and>
   sum_list (map exactContribution [15, 1, 1, 1]) / 4 = 19 / 40 \<and>
   \<lfloor>(19 / 40 :: rat) * 100 + 1 / 2\<rfloor> = 48 \<and> roundEven (19 / 40 * 100) = 48 \<and>
   calculateQualityScore shortFirst = double (47 / 100) \<and>
   calculateQualityScore longFirst = double (48 / 100) \<and>
   calculateQualityScore shortFirst < calculateQualityScore longFirst"
proof -
  have "sum_list (map exactContribution [1, 1, 1, 15]) / 4 = 19 / 40"
    by (simp add: exactContribution_def)
  moreover have "sum_list (map exactContribution [15, 1, 1, 1]) / 4 = 19 / 40"
    by (simp add: exactContribution_def)
  moreover have "\<lfloor>(19 / 40 :: rat) * 100 + 1 / 2\<rfloor> = 48" by simp
  moreover have "roundEven (19 / 40 * 100) = 48" by (simp add: roundEven_def Let_def)
  moreover have "double (47 / 100) < double (48 / 100)" by (simp add: double_eval Let_def)
  ultimately show ?thesis
    by (simp only: shortFirst_words longFirst_words shortFirst_score longFirst_score simp_thms)
qed

section \<open>SEO agent: the clarity balance\<close>










section \<open>Rewriter: the improvements found after the rewrite\<close>












section \<open>Grammar agent\<close>

lemma repeatedText_pairs: "repeatedPairs None repeatedText = [asc ''repetidas repetidas'']"
  by (simp add: repeatedText_def string_eval regex_eval Let_def)

text \<open>
  Claim C8. The Grammar agent returns its input as \<open>correctedText\<close>, for every text.
  For the text of the specification it finds the one repeated pair
  \<open>repetidas repetidas\<close> and reports it, and the corrected text is still the input.
\<close>

theorem grammar_correctedText_unchanged:
  "correctedText (grammar_analyze text context) = text \<and>
   repeatedPairs None repeatedText = [asc ''repetidas repetidas''] \<and>
   grammar_result.issues (grammar_analyze repeatedText context) =
     [[(''type'', Str (asc ''grammar'')), (''issue'', Str (asc ''Palabras repetidas'')),
       (''examples'', Strs [asc ''repetidas repetidas'']),
       (''recommendation'', Str (asc ''Eliminar repeticiones innecesarias''))]] \<and>
   correctedText (grammar_analyze repeatedText context) = repeatedText"
  by (simp add: grammar_analyze_def findGrammarIssues_def Let_def repeatedText_pairs)

text \<open>
  A pair that differs in case is found as well, and the text is returned as it is.
\<close>

theorem grammar_correctedText_unchanged_witness:
  "correctedText (grammar_analyze (asc ''Hola hola mundo.'') \<lparr>analysis_context.apiKey = None,
      isWebPage = True, analysis_context.metadata = \<lparr>title = None, metaDescription = None\<rparr>\<rparr>) =
     asc ''Hola hola mundo.'' \<and>
   repeatedPairs None (asc ''Hola hola mundo.'') = [asc ''Hola hola'']"
proof -
  have "repeatedPairs None (asc ''Hola hola mundo.'') = [asc ''Hola hola'']"
    by (simp add: string_eval regex_eval Let_def)
  then show ?thesis
    using grammar_correctedText_unchanged [of "asc ''Hola hola mundo.''"] by simp
qed

section \<open>Analyzer: the classification\<close>

text \<open>
  The Analyzer takes the number of pieces of \<open>text.split(/\s+/)\<close>. A text without
  white space at its ends has no empty piece, unless it is empty, and then it has one
  piece and no word: the number of pieces is below 100 when the number of words is.
\<close>

lemma pieces_words:
  assumes "trim text = text"
  shows "length (split_runs isSpace text) < 100 \<longleftrightarrow> wordCount text < 100"
proof (cases "text = []")
  case True
  then show ?thesis by (simp add: split_runs_def wordCount_def)
next
  case False
  from no_empty_piece [OF assms False] show ?thesis
    by (simp add: wordCount_def split_runs_def)
qed

text \<open>
  The text that the popup hands to \<open>processText\<close> has no white space at its ends:
  it is the trimmed text of the page, or a prefix of it followed by three dots.
\<close>

lemma truncatedText_fixed:
  "trim (truncatedText charLimit (trim raw)) = truncatedText charLimit (trim raw)"
proof (cases "int (length (trim raw)) > charLimit")
  case False
  then show ?thesis by (simp add: truncatedText_def trim_trim)
next
  case True
  let ?p = "take (nat charLimit) (trim raw)"
  have t: "truncatedText charLimit (trim raw) = ?p @ asc ''...''"
    using True by (simp add: truncatedText_def)
  have dot: "\<not> isSpace 46" by (simp add: isSpace_def)
  have l: "\<not> isSpace (last (?p @ asc ''...''))" using dot by (simp add: asc_def)
  have h: "\<not> isSpace (hd (?p @ asc ''...''))"
  proof (cases "?p = []")
    case True
    have e: "hd ([] @ asc ''...'') = 46" by (simp add: asc_def)
    show ?thesis unfolding True e by (rule dot)
  next
    case False
    then have ne: "trim raw \<noteq> []" by auto
    from False have "hd (?p @ asc ''...'') = hd (trim raw)" by (simp add: hd_append)
    then show ?thesis using trim_ends [OF ne] by simp
  qed
  have "?p @ asc ''...'' \<noteq> []" by (simp add: asc_def)
  then have "trim (?p @ asc ''...'') = ?p @ asc ''...''" using h l by (rule trim_fixed)
  then show ?thesis by (simp only: t)
qed

text \<open>
  Claim C6. The classification of a text is \<open>short\<close> when its word count is below
  100; otherwise \<open>web\<close> when the context is a web page; otherwise \<open>web\<close> when the
  text contains \<open>meta\<close>, \<open>titulo\<close> (with its accent) or \<open>SEO\<close>; otherwise
  \<open>document\<close>. The text is
  one that the Analyzer can receive: \<open>processText\<close> is its only caller, and the text of
  \<open>processText\<close> comes from the popup, without white space at its ends
  (\<open>truncatedText_fixed\<close>).
\<close>

theorem classifyText_word_count:
  "trim text = text \<Longrightarrow>
   classifyText text context =
     (if wordCount text < 100 then asc ''short''
      else if isWebPage context then asc ''web''
      else if includesStr text (asc ''meta'') \<or> includesStr text titulo \<or> includesStr text (asc ''SEO'')
           then asc ''web''
      else asc ''document'')"
  using pieces_words [of "text"] by (simp add: classifyText_def Let_def)

text \<open>
  A page text of six words between white space reaches the Analyzer trimmed, and is
  classified as \<open>short\<close>.
\<close>

theorem classifyText_word_count_witness:
  "trim (truncatedText 3000 (trim (asc ''  Este es un texto de ejemplo.  ''))) =
     truncatedText 3000 (trim (asc ''  Este es un texto de ejemplo.  '')) \<and>
   truncatedText 3000 (trim (asc ''  Este es un texto de ejemplo.  '')) =
     asc ''Este es un texto de ejemplo.'' \<and>
   wordCount (asc ''Este es un texto de ejemplo.'') = 6 \<and>
   classifyText (truncatedText 3000 (trim (asc ''  Este es un texto de ejemplo.  '')))
     \<lparr>analysis_context.apiKey = None, isWebPage = True,
      analysis_context.metadata = \<lparr>title = None, metaDescription = None\<rparr>\<rparr> = asc ''short''"
proof -
  have v: "truncatedText 3000 (trim (asc ''  Este es un texto de ejemplo.  '')) =
           asc ''Este es un texto de ejemplo.''"
    by (simp add: truncatedText_def string_eval)
  have w: "wordCount (asc ''Este es un texto de ejemplo.'') = 6"
    by (simp add: wordCount_def string_eval)
  have f: "trim (truncatedText 3000 (trim (asc ''  Este es un texto de ejemplo.  ''))) =
           truncatedText 3000 (trim (asc ''  Este es un texto de ejemplo.  ''))"
    by (rule truncatedText_fixed)
  show ?thesis
    using classifyText_word_count [OF f] f v by (simp add: w)
qed

section \<open>Coordinator: a run that returns a report\<close>

lemma andThen_Inr:
  "andThen m f s = (Inr r, s') \<longleftrightarrow> (\<exists>a s1. m s = (Inr a, s1) \<and> f a s1 = (Inr r, s'))"
  by (auto simp: andThen_def split: prod.splits sum.splits)

lemma await_Inr: "await x s = (Inr a, s1) \<longleftrightarrow> x = Inr a \<and> s1 = s"
  by (auto simp: await_def)

lemma invoke_Inr:
  "invoke f stage status s = (Inr u, s1) \<longleftrightarrow>
     (\<exists>c'. f stage status (snd s) = (None, c') \<and> s1 = (fst s @ [(stage, status, None)], c'))"
  by (cases s) (auto simp: invoke_def split: prod.splits option.splits)

lemma processText_succeeds:
  assumes "rewriter_analyze fetch text (contextOf options) = Inr rw"
    and "onProgress options = None"
  shows "\<exists>r s'. processText toLowerCase fetch text options s = (Inr r, s')"
  using assms by (cases s) (simp add: processText_def Let_def andThen_def invoke_def await_def)

lemma processText_Inr:
  assumes "processText toLowerCase fetch text options s = (Inr r, s')"
  shows "\<exists>rw. rewriter_analyze fetch text (contextOf options) = Inr rw \<and>
           report.originalText r = text \<and>
           analysis r = Some (analyzer_analyze text (contextOf options)) \<and>
           rewriting r = Some rw \<and>
           grammar r = Some (grammar_analyze (currentTextOf rw text) (contextOf options)) \<and>
           style r = Some (style_analyze (currentTextOf rw text) (contextOf options)) \<and>
           seo r = Some (seo_analyze toLowerCase (currentTextOf rw text) (contextOf options)) \<and>
           report.validation r = Some (validator_analyze (currentTextOf rw text) (contextOf options)) \<and>
           finalText r = currentTextOf rw text \<and>
           report.improvements r =
             rewriter_result.improvements rw @
             grammar_result.issues (grammar_analyze (currentTextOf rw text) (contextOf options)) @
             styleIssues (style_analyze (currentTextOf rw text) (contextOf options)) @
             seoRecommendations (seo_analyze toLowerCase (currentTextOf rw text) (contextOf options)) \<and>
           map fst (fst s') = map fst (fst s) @ stageNames"
  using assms unfolding processText_def Let_def andThen_Inr await_Inr invoke_Inr
  by (auto simp: currentTextOf_def stageNames_def)

lemma example_rewriting:
  "rewriter_analyze exampleService (asc ''Hola mundo'') (contextOf exampleOptions) =
     Inr \<lparr>rewriter_result.agent = asc ''Rewriter'',
          rewriter_result.originalText = asc ''Hola mundo'',
          rewrittenText = asc ''Hola hola. Fue ayer.'',
          rewriter_result.improvements =
            identifyImprovements (asc ''Hola mundo'') (asc ''Hola hola. Fue ayer.''),
          issuesDetected = rewriter_detectIssues (asc ''Hola mundo'')\<rparr>"
  by (simp add: rewriter_analyze_def exampleService_def contextOf_def exampleOptions_def Let_def asc_def)

lemma example_run:
  "\<exists>r s'. processText asciiLower exampleService (asc ''Hola mundo'') exampleOptions ([], ()) = (Inr r, s')"
  using processText_succeeds [OF example_rewriting] by (simp add: exampleOptions_def)

text \<open>
  Claim C1. When \<open>processText\<close> returns a report, its \<open>improvements\<close> are the
  improvements of the Rewriter, the issues of the Grammar agent, the style issues of the
  Style agent and the recommendations of the SEO agent, one list after the other in this
  order, each list as the agent returned it.
\<close>

theorem processText_improvements_concat:
  "processText toLowerCase fetch text options s = (Inr r, s') \<Longrightarrow>
   \<exists>rw g st se.
     rewriter_analyze fetch text (contextOf options) = Inr rw \<and>
     g = grammar_analyze (currentTextOf rw text) (contextOf options) \<and>
     st = style_analyze (currentTextOf rw text) (contextOf options) \<and>
     se = seo_analyze toLowerCase (currentTextOf rw text) (contextOf options) \<and>
     rewriting r = Some rw \<and> grammar r = Some g \<and> style r = Some st \<and> seo r = Some se \<and>
     report.improvements r =
       rewriter_result.improvements rw @ grammar_result.issues g @ styleIssues st @
       seoRecommendations se"
  using processText_Inr [of toLowerCase fetch "text" options s r s'] by auto

lemma example_improvements:
  "map (\<lambda>ob. map_of ob ''type'') (identifyImprovements (asc ''Hola mundo'') (asc ''Hola hola. Fue ayer.'')) =
     [Some (Str (asc ''structure''))]"
  "map (\<lambda>ob. map_of ob ''type'') (findGrammarIssues (asc ''Hola hola. Fue ayer.'')) =
     [Some (Str (asc ''grammar''))]"
  "map (\<lambda>ob. map_of ob ''type'') (findStyleIssues (asc ''Hola hola. Fue ayer.'')) =
     [Some (Str (asc ''style''))]"
  "map (\<lambda>ob. map_of ob ''type'')
     (analyzeSEOElements asciiLower (asc ''Hola hola. Fue ayer.'') (contextOf exampleOptions)) =
     [Some (Str (asc ''seo''))]"
proof -
  show "map (\<lambda>ob. map_of ob ''type'') (identifyImprovements (asc ''Hola mundo'') (asc ''Hola hola. Fue ayer.'')) =
     [Some (Str (asc ''structure''))]"
    by (simp add: identifyImprovements_def totalTokens_def Let_def string_eval double_eval)
  show "map (\<lambda>ob. map_of ob ''type'') (findGrammarIssues (asc ''Hola hola. Fue ayer.'')) =
     [Some (Str (asc ''grammar''))]"
    by (simp add: findGrammarIssues_def Let_def string_eval regex_eval)
  show "map (\<lambda>ob. map_of ob ''type'') (findStyleIssues (asc ''Hola hola. Fue ayer.'')) =
     [Some (Str (asc ''style''))]"
    by (simp add: findStyleIssues_def Let_def string_eval regex_eval enumerate_eq_zip)
  show "map (\<lambda>ob. map_of ob ''type'')
     (analyzeSEOElements asciiLower (asc ''Hola hola. Fue ayer.'') (contextOf exampleOptions)) =
     [Some (Str (asc ''seo''))]"
    by (simp add: analyzeSEOElements_def Let_def string_eval asciiLower_def contextOf_def
        exampleOptions_def entriesOf_def countWord_def isArrayIndex_def)
qed

text \<open>
  A run in which each of the four agents reports one finding: the report lists them in
  the order of the stages.
\<close>

theorem processText_improvements_concat_witness:
  "\<exists>r s'. processText asciiLower exampleService (asc ''Hola mundo'') exampleOptions ([], ()) = (Inr r, s') \<and>
     map (\<lambda>ob. map_of ob ''type'') (report.improvements r) =
       [Some (Str (asc ''structure'')), Some (Str (asc ''grammar'')), Some (Str (asc ''style'')),
        Some (Str (asc ''seo''))]"
proof -
  from example_run obtain r s' where
    run: "processText asciiLower exampleService (asc ''Hola mundo'') exampleOptions ([], ()) = (Inr r, s')"
    by blast
  from processText_improvements_concat [OF run] example_rewriting
  have "report.improvements r =
      identifyImprovements (asc ''Hola mundo'') (asc ''Hola hola. Fue ayer.'') @
      findGrammarIssues (asc ''Hola hola. Fue ayer.'') @
      findStyleIssues (asc ''Hola hola. Fue ayer.'') @
      analyzeSEOElements asciiLower (asc ''Hola hola. Fue ayer.'') (contextOf exampleOptions)"
    by (auto simp: currentTextOf_def grammar_analyze_def style_analyze_def seo_analyze_def Let_def asc_def)
  then have "map (\<lambda>ob. map_of ob ''type'') (report.improvements r) =
       [Some (Str (asc ''structure'')), Some (Str (asc ''grammar'')), Some (Str (asc ''style'')),
        Some (Str (asc ''seo''))]"
    by (simp only: map_append example_improvements append.simps)
  with run show ?thesis by (intro exI conjI)
qed

lemma processText_replay:
  assumes "processText toLowerCase fetch text options (calls, c) = (Inr r, (calls', c'))"
  shows "replay (callbackOf options) progressCalls c = (None, c')"
  using assms unfolding processText_def Let_def andThen_Inr await_Inr invoke_Inr
  by (auto simp: callbackOf_def progressCalls_def)

lemma logging_rewriting:
  "rewriter_analyze exampleService (asc ''Hola mundo'') (contextOf loggingOptions) =
   rewriter_analyze exampleService (asc ''Hola mundo'') (contextOf exampleOptions)"
  by (simp add: contextOf_def loggingOptions_def exampleOptions_def)

lemma logging_run:
  "\<exists>r calls seen. processText asciiLower exampleService (asc ''Hola mundo'') loggingOptions ([], []) =
     (Inr r, (calls, seen))"
  using example_rewriting logging_rewriting
  by (simp add: processText_def Let_def andThen_def invoke_def await_def loggingOptions_def
      loggingCallback_def)

text \<open>
  Claim C2. A run of \<open>processText\<close> that returns a report has invoked \<open>onProgress\<close>
  seven times, with the stage names \<open>analyzer\<close>, \<open>rewriter\<close>, \<open>grammar\<close>,
  \<open>style\<close>, \<open>seo\<close>, \<open>validator\<close>, \<open>done\<close> in this order, whatever the text,
  the options and the answer of the service: the state in which the run leaves the
  callback of the options is the state after these seven calls of it, one after the
  other and none of them throwing, and the invocations that the run has made are these
  seven.
\<close>

theorem processText_progress_sequence:
  "processText toLowerCase fetch text options ([], c) = (Inr r, (calls, c')) \<Longrightarrow>
   replay (callbackOf options) progressCalls c = (None, c') \<and>
   map fst progressCalls = [asc ''analyzer'', asc ''rewriter'', asc ''grammar'', asc ''style'',
                            asc ''seo'', asc ''validator'', asc ''done''] \<and>
   map fst calls = [asc ''analyzer'', asc ''rewriter'', asc ''grammar'', asc ''style'', asc ''seo'',
                    asc ''validator'', asc ''done''] \<and>
   length calls = 7"
proof -
  assume run: "processText toLowerCase fetch text options ([], c) = (Inr r, (calls, c'))"
  from processText_Inr [OF run] have m: "map fst calls = stageNames" by auto
  have "length (map fst calls) = length stageNames" by (simp only: m)
  then have l: "length calls = 7" by (simp add: stageNames_def)
  from m have n: "map fst calls = [asc ''analyzer'', asc ''rewriter'', asc ''grammar'', asc ''style'',
      asc ''seo'', asc ''validator'', asc ''done'']"
    unfolding stageNames_def .
  have p: "map fst progressCalls = [asc ''analyzer'', asc ''rewriter'', asc ''grammar'', asc ''style'',
      asc ''seo'', asc ''validator'', asc ''done'']"
    by (simp add: progressCalls_def)
  show ?thesis
    by (intro conjI) (rule processText_replay [OF run], rule p, rule n, rule l)
qed

text \<open>
  A run with a callback that keeps the stage names it is called with: after the run
  the callback has kept the seven names in their order.
\<close>

theorem processText_progress_sequence_witness:
  "\<exists>r calls. processText asciiLower exampleService (asc ''Hola mundo'') loggingOptions ([], []) =
       (Inr r, (calls, [asc ''analyzer'', asc ''rewriter'', asc ''grammar'', asc ''style'',
                        asc ''seo'', asc ''validator'', asc ''done''])) \<and>
     map fst calls = [asc ''analyzer'', asc ''rewriter'', asc ''grammar'', asc ''style'', asc ''seo'',
                      asc ''validator'', asc ''done''] \<and>
     length calls = 7"
proof -
  from logging_run obtain r calls seen where
    run: "processText asciiLower exampleService (asc ''Hola mundo'') loggingOptions ([], []) =
            (Inr r, (calls, seen))"
    by blast
  note t = processText_progress_sequence [OF run]
  have "replay (callbackOf loggingOptions) progressCalls [] =
          (None, [asc ''analyzer'', asc ''rewriter'', asc ''grammar'', asc ''style'',
                  asc ''seo'', asc ''validator'', asc ''done''])"
    by (simp add: callbackOf_def loggingOptions_def loggingCallback_def progressCalls_def)
  with conjunct1 [OF t] have seen: "seen = [asc ''analyzer'', asc ''rewriter'', asc ''grammar'',
      asc ''style'', asc ''seo'', asc ''validator'', asc ''done'']"
    by simp
  show ?thesis
  proof (intro exI conjI)
    show "processText asciiLower exampleService (asc ''Hola mundo'') loggingOptions ([], []) =
            (Inr r, (calls, [asc ''analyzer'', asc ''rewriter'', asc ''grammar'', asc ''style'',
                             asc ''seo'', asc ''validator'', asc ''done'']))"
      using run unfolding seen .
    show "map fst calls = [asc ''analyzer'', asc ''rewriter'', asc ''grammar'', asc ''style'',
        asc ''seo'', asc ''validator'', asc ''done'']"
      by (rule conjunct1 [OF conjunct2 [OF conjunct2 [OF t]]])
    show "length calls = 7" by (rule conjunct2 [OF conjunct2 [OF conjunct2 [OF t]]])
  qed
qed

lemma classification_values:
  "asc ''short'' \<noteq> asc ''document''" "asc ''web'' \<noteq> asc ''document''"
  by (simp_all add: asc_def)

text \<open>
  Claim C9. \<open>processText\<close> builds the context of every agent with \<open>isWebPage\<close> true,
  so the classification in a report is \<open>short\<close> or \<open>web\<close>, and never
  \<open>document\<close>.
\<close>

theorem processText_classification_web:
  "processText toLowerCase fetch text options s = (Inr r, s') \<Longrightarrow>
   isWebPage (contextOf options) \<and>
   (\<exists>a. analysis r = Some a \<and> a = analyzer_analyze text (contextOf options) \<and>
        (classification a = asc ''short'' \<or> classification a = asc ''web'') \<and>
        classification a \<noteq> asc ''document'')"
proof -
  assume "processText toLowerCase fetch text options s = (Inr r, s')"
  from processText_Inr [OF this]
  have a: "analysis r = Some (analyzer_analyze text (contextOf options))" by blast
  have w: "isWebPage (contextOf options)" by (simp add: contextOf_def)
  then have "classification (analyzer_analyze text (contextOf options)) = asc ''short'' \<or>
             classification (analyzer_analyze text (contextOf options)) = asc ''web''"
    by (simp add: analyzer_analyze_def classifyText_def Let_def)
  with a w show ?thesis using classification_values by auto
qed

text \<open>The example run classifies its text of two words as \<open>short\<close>.\<close>

theorem processText_classification_web_witness:
  "\<exists>r s' a. processText asciiLower exampleService (asc ''Hola mundo'') exampleOptions ([], ()) = (Inr r, s') \<and>
     isWebPage (contextOf exampleOptions) \<and> analysis r = Some a \<and> classification a = asc ''short''"
proof -
  from example_run obtain r s' where
    run: "processText asciiLower exampleService (asc ''Hola mundo'') exampleOptions ([], ()) = (Inr r, s')"
    by blast
  have "classifyText (asc ''Hola mundo'') (contextOf exampleOptions) = asc ''short''"
    by (simp add: classifyText_def Let_def split_runs_def isSpace_def) (simp add: asc_def)
  then have "classification (analyzer_analyze (asc ''Hola mundo'') (contextOf exampleOptions)) = asc ''short''"
    by (simp add: analyzer_analyze_def Let_def)
  then have c: "classification (the (analysis r)) = asc ''short''" and a: "analysis r = Some (the (analysis r))"
    using processText_classification_web [OF run] by auto
  show ?thesis
  proof (intro exI conjI)
    show "processText asciiLower exampleService (asc ''Hola mundo'') exampleOptions ([], ()) = (Inr r, s')"
      by (rule run)
    show "isWebPage (contextOf exampleOptions)" by (rule conjunct1 [OF processText_classification_web [OF run]])
    show "analysis r = Some (the (analysis r))" by (rule a)
    show "classification (the (analysis r)) = asc ''short''" by (rule c)
  qed
qed

text \<open>
  Claim C10. In a run that returns a report, the final text is the text of the Rewriter,
  or the original text when the Rewriter returned the empty string; the Grammar, Style,
  SEO and Validator agents have read this final text. A rewritten text that is absent
  (not a string) makes the Rewriter throw, so such a run returns no report.
\<close>

theorem processText_finalText_fallback:
  "processText toLowerCase fetch text options s = (Inr r, s') \<Longrightarrow>
   \<exists>rw. rewriter_analyze fetch text (contextOf options) = Inr rw \<and> rewriting r = Some rw \<and>
     finalText r = (if rewrittenText rw = [] then text else rewrittenText rw) \<and>
     grammar r = Some (grammar_analyze (finalText r) (contextOf options)) \<and>
     style r = Some (style_analyze (finalText r) (contextOf options)) \<and>
     seo r = Some (seo_analyze toLowerCase (finalText r) (contextOf options)) \<and>
     report.validation r = Some (validator_analyze (finalText r) (contextOf options))"
  using processText_Inr [of toLowerCase fetch "text" options s r s']
  by (auto simp: currentTextOf_def)

lemma empty_rewriting:
  "rewriter_analyze emptyService (asc ''Hola mundo'') (contextOf exampleOptions) =
     Inr \<lparr>rewriter_result.agent = asc ''Rewriter'',
          rewriter_result.originalText = asc ''Hola mundo'',
          rewrittenText = [],
          rewriter_result.improvements = identifyImprovements (asc ''Hola mundo'') [],
          issuesDetected = rewriter_detectIssues (asc ''Hola mundo'')\<rparr>"
  by (simp add: rewriter_analyze_def emptyService_def contextOf_def exampleOptions_def Let_def asc_def)

lemma empty_run:
  "\<exists>r s'. processText asciiLower emptyService (asc ''Hola mundo'') exampleOptions ([], ()) = (Inr r, s')"
  using processText_succeeds [OF empty_rewriting] by (simp add: exampleOptions_def)

text \<open>The service answers with an empty completion: the final text is the original.\<close>

theorem processText_finalText_fallback_witness:
  "\<exists>r s'. processText asciiLower emptyService (asc ''Hola mundo'') exampleOptions ([], ()) = (Inr r, s') \<and>
     finalText r = asc ''Hola mundo'' \<and>
     grammar r = Some (grammar_analyze (asc ''Hola mundo'') (contextOf exampleOptions))"
proof -
  from empty_run obtain r s' where
    run: "processText asciiLower emptyService (asc ''Hola mundo'') exampleOptions ([], ()) = (Inr r, s')"
    by blast
  from processText_finalText_fallback [OF run] empty_rewriting
  have f: "finalText r = asc ''Hola mundo''"
    and g: "grammar r = Some (grammar_analyze (finalText r) (contextOf exampleOptions))"
    by auto
  show ?thesis
  proof (intro exI conjI)
    show "processText asciiLower emptyService (asc ''Hola mundo'') exampleOptions ([], ()) = (Inr r, s')"
      by (rule run)
    show "finalText r = asc ''Hola mundo''" by (rule f)
    show "grammar r = Some (grammar_analyze (asc ''Hola mundo'') (contextOf exampleOptions))"
      using g by (simp only: f)
  qed
qed

section \<open>Coordinator: a callback that throws\<close>

lemma followsD:
  assumes "follows m m0" and "quiet calls" and "m (calls, c) = (res, (calls', c'))"
  shows "(quiet calls' \<and> res = fst (m0 s0)) \<or>
         (\<exists>pre stage status e. calls' = pre @ [(stage, status, Some e)] \<and> quiet pre \<and> res = Inl e)"
  using assms unfolding follows_def by blast

lemma follows_await: "follows (await x) (await x)"
  by (simp add: follows_def await_def)

lemma follows_invoke: "follows (invoke f stage status) (invoke (\<lambda>_ _ c. (None, c)) stage status)"
  by (auto simp: follows_def invoke_def quiet_def split: prod.splits option.splits)

lemma follows_andThen:
  assumes "follows m m0" and "\<And>a. follows (g a) (g0 a)"
  shows "follows (andThen m g) (andThen m0 g0)"
  unfolding follows_def
proof (intro allI impI)
  fix calls c s0 res calls' c'
  assume q: "quiet calls" and run: "andThen m g (calls, c) = (res, (calls', c'))"
  obtain res1 calls1 d1 where m: "m (calls, c) = (res1, (calls1, d1))"
    by (metis surj_pair)
  obtain res0 s1 where m0: "m0 s0 = (res0, s1)" by (metis surj_pair)
  from followsD [OF assms(1) q m, of s0] m0 consider
    (same) "quiet calls1" "res1 = res0"
    | (thrown) pre stage status e where "calls1 = pre @ [(stage, status, Some e)]" "quiet pre" "res1 = Inl e"
    by auto
  then show "(quiet calls' \<and> res = fst (andThen m0 g0 s0)) \<or>
           (\<exists>pre stage status e. calls' = pre @ [(stage, status, Some e)] \<and> quiet pre \<and> res = Inl e)"
  proof cases
    case same
    show ?thesis
    proof (cases res1)
      case (Inl e)
      then show ?thesis using same m m0 run by (simp add: andThen_def)
    next
      case (Inr a)
      then have "g a (calls1, d1) = (res, (calls', c'))" "andThen m0 g0 s0 = g0 a s1"
        using same m m0 run by (simp_all add: andThen_def)
      then show ?thesis using followsD [OF assms(2) same(1), of a d1 res calls' c' s1] by simp
    qed
  next
    case thrown
    then show ?thesis using m run by (auto simp: andThen_def)
  qed
qed

lemma follows_processText:
  "follows (processText toLowerCase fetch text options)
           (processText toLowerCase fetch text (options\<lparr>onProgress := None\<rparr>))"
  unfolding processText_def Let_def
  by (cases "onProgress options")
     (simp_all add: contextOf_def follows_andThen follows_invoke follows_await)

text \<open>
  Claim C3, as amended. \<open>processText\<close> does not catch what \<open>onProgress\<close> throws:
  when an invocation of the callback has thrown, the run has failed with that exception.
  When no invocation has thrown, the outcome of the run (its report, or the failure of
  the Rewriter) is the outcome of the same run without a callback.
\<close>

theorem processText_callback_exception:
  assumes "processText toLowerCase fetch text options ([], c) = (res, (calls, c'))"
  shows "(\<forall>stage status e. (stage, status, Some e) \<in> set calls \<longrightarrow> res = Inl e) \<and>
     ((\<forall>entry \<in> set calls. snd (snd entry) = None) \<longrightarrow>
        res = fst (processText toLowerCase fetch text (options\<lparr>onProgress := None\<rparr>) ([], c)))"
proof -
  have "quiet []" by (simp add: quiet_def)
  from followsD [OF follows_processText this assms]
  have "(quiet calls \<and> res = fst (processText toLowerCase fetch text (options\<lparr>onProgress := None\<rparr>) ([], c))) \<or>
        (\<exists>pre stage status e. calls = pre @ [(stage, status, Some e)] \<and> quiet pre \<and> res = Inl e)" .
  then show ?thesis
    by (fastforce simp: quiet_def list_all_iff)
qed

lemma example_throw:
  "processText asciiLower exampleService (asc ''Hola mundo'')
     (exampleOptions\<lparr>onProgress := Some throwingCallback\<rparr>) ([], ()) =
   (Inl (Error (asc ''boom'')),
    ([(asc ''analyzer'', asc ''Analizando texto...'', Some (Error (asc ''boom'')))], ()))"
  by (simp add: processText_def Let_def andThen_def invoke_def throwingCallback_def)

text \<open>The callback throws at the first invocation, and the run fails with its exception.\<close>

theorem processText_callback_exception_witness:
  "processText asciiLower exampleService (asc ''Hola mundo'')
     (exampleOptions\<lparr>onProgress := Some throwingCallback\<rparr>) ([], ()) =
   (Inl (Error (asc ''boom'')),
    ([(asc ''analyzer'', asc ''Analizando texto...'', Some (Error (asc ''boom'')))], ())) \<and>
   fst (processText asciiLower exampleService (asc ''Hola mundo'')
     (exampleOptions\<lparr>onProgress := Some throwingCallback\<rparr>) ([], ())) = Inl (Error (asc ''boom''))"
proof -
  have "fst (processText asciiLower exampleService (asc ''Hola mundo'')
     (exampleOptions\<lparr>onProgress := Some throwingCallback\<rparr>) ([], ())) = Inl (Error (asc ''boom''))"
    using conjunct1 [OF processText_callback_exception [OF example_throw]] example_throw by simp
  with example_throw show ?thesis by (rule conjI)
qed

text \<open>
  On the same text, key and service, the run with the throwing callback fails with the
  exception of the callback, and the run without a callback returns a report.
\<close>

theorem processText_callback_not_isolated:
  "fst (processText asciiLower exampleService (asc ''Hola mundo'')
     (exampleOptions\<lparr>onProgress := Some throwingCallback\<rparr>) ([], ())) = Inl (Error (asc ''boom'')) \<and>
   \<not> isl (fst (processText asciiLower exampleService (asc ''Hola mundo'') exampleOptions ([], ())))"
  using example_run by (auto simp: example_throw)

end
